theory Spec2Isabelle
  imports Complex_Main "HOL-Library.AList" "HOL-Library.Stream" "HOL-Library.Sublist"
begin

section \<open>The item manager of the collection arena\<close>

text \<open>
  A shallow embedding of \<^verbatim>\<open>src/assessment/assessment/item_manager.py\<close>: the world
  state of the \<^verbatim>\<open>ItemManager\<close> node, its two request handlers
  (\<^verbatim>\<open>pick_up_item\<close>, \<^verbatim>\<open>offload_item\<close>), the zone rule, the two
  rejection samplers and the periodic \<^verbatim>\<open>control_loop\<close>.

  Conventions of the embedding.
  \<^item> Python dictionaries are association lists in insertion order; a lookup is
    \<open>map_of\<close>, a store is \<open>AList.update\<close> (in place for a present key, appended for a
    new one, as a Python \<^verbatim>\<open>dict\<close> does). Iteration walks the list.
  \<^item> Python floats are idealised as real numbers, and \<^verbatim>\<open>round(v, 2)\<close> rounds half to
    even on the second decimal. In the placement generators \<^verbatim>\<open>math.dist\<close> is the
    Euclidean distance. The distance test of \<^verbatim>\<open>pick_up_item\<close>, whose outcome at the
    threshold depends on the rounding of the operands, is computed in double precision:
    every operand and every result is rounded to the nearest binary64 number, ties to even.
  \<^item> The module \<^verbatim>\<open>random\<close> is not part of the repository. Its generator is a stream
    of raw draws; \<^verbatim>\<open>randint\<close>, \<^verbatim>\<open>uniform\<close> and \<^verbatim>\<open>choice\<close> each
    consume one draw and map it into their documented range.
  \<^item> A missing dictionary key raises \<^verbatim>\<open>KeyError\<close>: the value \<open>Inl KeyError\<close>.
    A sampling loop that never accepts a candidate does not return: the value \<open>None\<close>.
  \<^item> Calls to the simulation backend and publications are returned as a list, in the
    order the handler issues them. The three callbacks share one mutually exclusive
    callback group, so each is one atomic transition of the state. Logging is left out.
\<close>

subsection \<open>Data model\<close>

datatype Colour = RED | GREEN | BLUE

datatype ZoneLocation = TOP_LEFT | TOP_RIGHT | BOTTOM_RIGHT | BOTTOM_LEFT

datatype error = KeyError

record Zone =
  zone_location :: ZoneLocation
  zone_x :: real
  zone_y :: real
  items_returned :: "(Colour \<times> int) list"

record Item =
  item_x :: real
  item_y :: real
  item_colour :: Colour
  cluster_id :: string

record Cluster =
  cluster_x :: int
  cluster_y :: int
  cluster_colour :: Colour

record Robot =
  robot_x :: real
  robot_y :: real
  item_held :: "string option"
  previous_item_held :: "string option"

record Response =
  success :: bool
  message :: string

record ItemHolder =
  holder_robot_id :: string
  holding_item :: bool
  holder_item_colour :: string
  holder_item_value :: int

record ItemLog =
  red_count :: int
  green_count :: int
  blue_count :: int
  total_count :: int
  red_value :: int
  green_value :: int
  blue_value :: int
  total_value :: int

text \<open>What a handler sends out: backend requests and the two publications.\<close>

datatype backend_call =
    SpawnEntity string Colour real real real
  | GetModelList
  | GetEntityState string
  | SetEntityState string string real real real
  | PublishItemHolders "ItemHolder list"
  | PublishItemLog ItemLog

record ItemManager =
  first_run :: bool
  clusters :: "(string \<times> Cluster) list"
  robots :: "(string \<times> Robot) list"
  items :: "(string \<times> Item) list"
  zones :: "(ZoneLocation \<times> Zone) list"
  cluster_counter :: nat
  item_counter :: nat
  rng :: "nat stream"

subsection \<open>Library functions the module calls\<close>

definition math_dist :: "real \<times> real \<Rightarrow> real \<times> real \<Rightarrow> real" where
  "math_dist p q = sqrt ((fst p - fst q)\<^sup>2 + (snd p - snd q)\<^sup>2)"

definition round_half_even :: "real \<Rightarrow> int" where
  "round_half_even v =
     (let f = \<lfloor>v\<rfloor>; d = v - of_int f
      in if d < 1 / 2 then f else if 1 / 2 < d then f + 1
         else if even f then f else f + 1)"

definition round2 :: "real \<Rightarrow> real" where
  "round2 v = of_int (round_half_even (v * 100)) / 100"

text \<open>
  Double precision. \<open>binary64 v\<close> is the number with a significand of 53 bits that is
  nearest to \<open>v\<close>, the even one of two that are equally near; the magnitudes of the arena
  are far from the ends of the exponent range, which is left unbounded. A float literal
  and a stored coordinate stand for the double nearest to them. \<^verbatim>\<open>math.dist\<close> takes the
  differences of the coordinates in double precision and returns the correctly rounded
  norm of these differences.
\<close>

definition binary64 :: "real \<Rightarrow> real" where
  "binary64 v =
     (if v = 0 then 0
      else let e = \<lfloor>log 2 \<bar>v\<bar>\<rfloor>
           in real_of_int (round_half_even (v * 2 powr (52 - real_of_int e))) *
              2 powr (real_of_int e - 52))"

definition float_diff :: "real \<Rightarrow> real \<Rightarrow> real" where
  "float_diff a b = binary64 (binary64 a - binary64 b)"

definition float_dist :: "real \<times> real \<Rightarrow> real \<times> real \<Rightarrow> real" where
  "float_dist p q =
     binary64 (sqrt ((float_diff (fst p) (fst q))\<^sup>2 + (float_diff (snd p) (snd q))\<^sup>2))"

definition radians :: "real \<Rightarrow> real" where
  "radians d = d * pi / 180"

definition random_unit :: "nat \<Rightarrow> real" where
  "random_unit n = real (n mod 2 ^ 53) / 2 ^ 53"

definition uniform :: "real \<Rightarrow> real \<Rightarrow> nat stream \<Rightarrow> real \<times> nat stream" where
  "uniform a b g = (a + (b - a) * random_unit (shd g), stl g)"

definition randint :: "int \<Rightarrow> int \<Rightarrow> nat stream \<Rightarrow> int \<times> nat stream" where
  "randint a b g = (a + int (shd g mod nat (b - a + 1)), stl g)"

definition choice :: "'a list \<Rightarrow> nat stream \<Rightarrow> 'a \<times> nat stream" where
  "choice xs g = (xs ! (shd g mod length xs), stl g)"

fun digit_char :: "nat \<Rightarrow> char" where
  "digit_char n = ''0123456789'' ! (n mod 10)"

fun str :: "nat \<Rightarrow> string" where
  "str n = (if n < 10 then [digit_char n] else str (n div 10) @ [digit_char (n mod 10)])"

declare str.simps [simp del]

fun contains :: "string \<Rightarrow> string \<Rightarrow> bool" where
  "contains sub [] = (sub = [])"
| "contains sub (c # cs) = (prefix sub (c # cs) \<or> contains sub cs)"

definition quoted :: "string \<Rightarrow> string" where
  "quoted s = [CHR 0x27] @ s @ [CHR 0x27]"

fun str_option :: "string option \<Rightarrow> string" where
  "str_option None = ''None''"
| "str_option (Some s) = s"

fun str_location :: "ZoneLocation \<Rightarrow> string" where
  "str_location TOP_LEFT = ''ZoneLocation.TOP_LEFT''"
| "str_location TOP_RIGHT = ''ZoneLocation.TOP_RIGHT''"
| "str_location BOTTOM_RIGHT = ''ZoneLocation.BOTTOM_RIGHT''"
| "str_location BOTTOM_LEFT = ''ZoneLocation.BOTTOM_LEFT''"

fun colour_name :: "Colour \<Rightarrow> string" where
  "colour_name RED = ''RED''"
| "colour_name GREEN = ''GREEN''"
| "colour_name BLUE = ''BLUE''"

fun item_values :: "Colour \<Rightarrow> int" where
  "item_values RED = 5"
| "item_values GREEN = 10"
| "item_values BLUE = 15"

subsection \<open>Construction\<close>

definition new_zone :: "ZoneLocation \<Rightarrow> real \<Rightarrow> real \<Rightarrow> ZoneLocation \<times> Zone" where
  "new_zone l x y =
     (l, \<lparr>zone_location = l, zone_x = x, zone_y = y,
          items_returned = [(RED, 0), (GREEN, 0), (BLUE, 0)]\<rparr>)"

definition new_robot :: "real \<Rightarrow> real \<Rightarrow> Robot" where
  "new_robot x y = \<lparr>robot_x = x, robot_y = y, item_held = None, previous_item_held = None\<rparr>"

text \<open>
  \<^verbatim>\<open>__init__\<close>: the four flags enable the corner zones, in the order the source
  stores them; every counter of every zone starts at 0, for the colours in the order of
  the enumeration; the seed fixes the stream of draws.
\<close>

definition init_state :: "bool \<Rightarrow> bool \<Rightarrow> bool \<Rightarrow> bool \<Rightarrow> nat stream \<Rightarrow> ItemManager" where
  "init_state zone_top_left zone_top_right zone_bottom_left zone_bottom_right seed =
     \<lparr>first_run = True, clusters = [], robots = [], items = [],
      zones =
        (if zone_top_left then [new_zone TOP_LEFT 2.57 2.5] else []) @
        (if zone_top_right then [new_zone TOP_RIGHT 2.57 (- 2.46)] else []) @
        (if zone_bottom_right then [new_zone BOTTOM_RIGHT (- 3.42) (- 2.46)] else []) @
        (if zone_bottom_left then [new_zone BOTTOM_LEFT (- 3.42) 2.5] else []),
      cluster_counter = 0, item_counter = 0, rng = seed\<rparr>"

subsection \<open>\<^verbatim>\<open>pick_up_item\<close>\<close>

definition DISTANCE :: real where
  "DISTANCE = binary64 0.35"

text \<open>
  The scan of \<^verbatim>\<open>self.items\<close>: the first item for which the comparison
  \<^verbatim>\<open>math.dist((robot.x, robot.y), (item.x, item.y)) < DISTANCE\<close> of two doubles holds.
\<close>

fun first_in_range :: "Robot \<Rightarrow> (string \<times> Item) list \<Rightarrow> string option" where
  "first_in_range robot [] = None"
| "first_in_range robot ((item_id, item) # rest) =
     (if float_dist (robot_x robot, robot_y robot) (item_x item, item_y item) < DISTANCE
      then Some item_id
      else first_in_range robot rest)"

definition pick_up_item :: "ItemManager \<Rightarrow> string \<Rightarrow> ItemManager \<times> Response" where
  "pick_up_item s robot_id =
     (case map_of (robots s) robot_id of
        None \<Rightarrow>
          (s, \<lparr>success = False,
               message = ''Unable to find robot_id '' @ quoted robot_id\<rparr>)
      | Some robot \<Rightarrow>
          (case item_held robot of
             Some _ \<Rightarrow>
               (s, \<lparr>success = False,
                    message = ''Robot '' @ quoted robot_id @ '' is already holding an item''\<rparr>)
           | None \<Rightarrow>
               (case first_in_range robot (items s) of
                  Some item_id \<Rightarrow>
                    (s\<lparr>robots :=
                         AList.update robot_id (robot\<lparr>item_held := Some item_id\<rparr>) (robots s)\<rparr>,
                     \<lparr>success = True,
                      message = ''Robot '' @ quoted robot_id @ '' collected item successfully''\<rparr>)
                | None \<Rightarrow>
                    (s, \<lparr>success = False,
                         message = ''Robot '' @ quoted robot_id @ '' unable to pick any item.''\<rparr>))))"

subsection \<open>The zone rule\<close>

definition ZONE_SIZE :: real where
  "ZONE_SIZE = 0.5"

text \<open>
  \<^verbatim>\<open>get_robot_zone\<close> returns the zone object itself; the model returns it with its
  key, so that the caller's update of the object is an update at that key.
\<close>

fun get_robot_zone :: "(ZoneLocation \<times> Zone) list \<Rightarrow> Robot \<Rightarrow> (ZoneLocation \<times> Zone) option" where
  "get_robot_zone [] robot = None"
| "get_robot_zone ((l, zone) # rest) robot =
     (if robot_x robot \<le> zone_x zone + ZONE_SIZE \<and> zone_x zone - ZONE_SIZE \<le> robot_x robot \<and>
         robot_y robot \<le> zone_y zone + ZONE_SIZE \<and> zone_y zone - ZONE_SIZE \<le> robot_y robot
      then Some (l, zone)
      else get_robot_zone rest robot)"

text \<open>The first colour, in the dictionary's order, whose count is at least 1.\<close>

fun match_colour :: "(Colour \<times> int) list \<Rightarrow> Colour option" where
  "match_colour [] = None"
| "match_colour ((colour, count) # rest) =
     (if 1 \<le> count then Some colour else match_colour rest)"

text \<open>\<^verbatim>\<open>self.items[robot.item_held]\<close>\<close>

definition held_item :: "(string \<times> Item) list \<Rightarrow> Robot \<Rightarrow> error + Item" where
  "held_item its robot =
     (case item_held robot of
        None \<Rightarrow> Inl KeyError
      | Some i \<Rightarrow> (case map_of its i of None \<Rightarrow> Inl KeyError | Some item \<Rightarrow> Inr item))"

definition allowed_drop_in_zone ::
  "ItemManager \<Rightarrow> Robot \<Rightarrow> (ZoneLocation \<times> Zone) option \<Rightarrow> error + bool" where
  "allowed_drop_in_zone s robot zone =
     (case zone of
        None \<Rightarrow> Inr False
      | Some (l, z) \<Rightarrow>
          (case match_colour (items_returned z) of
             None \<Rightarrow> Inr True
           | Some mc \<Rightarrow>
               (case held_item (items s) robot of
                  Inl e \<Rightarrow> Inl e
                | Inr item \<Rightarrow> Inr (mc = item_colour item))))"

subsection \<open>The placement generators\<close>

definition obstacle :: "int \<Rightarrow> int \<Rightarrow> bool" where
  "obstacle x y =
     ((x = 1 \<and> y = 1) \<or> (x = 1 \<and> y = - 1) \<or> (x = - 1 \<and> y = 1) \<or> (x = - 1 \<and> y = - 1))"

definition cluster_clash :: "Cluster \<Rightarrow> int \<Rightarrow> int \<Rightarrow> bool" where
  "cluster_clash cluster x y =
     ((cluster_x cluster = x \<and> cluster_y cluster = y) \<or>
      math_dist (real_of_int (cluster_x cluster), real_of_int (cluster_y cluster))
                (real_of_int x, real_of_int y) \<le> 1.0)"

definition cluster_candidate :: "Colour \<Rightarrow> nat stream \<Rightarrow> (int \<times> int) \<times> nat stream" where
  "cluster_candidate colour g =
     (let (y, g1) = randint (- 2) 2 g;
          (x, g2) = (case colour of
                       RED \<Rightarrow> randint (- 2) (- 1) g1
                     | GREEN \<Rightarrow> randint (- 1) 1 g1
                     | BLUE \<Rightarrow> randint 1 2 g1)
      in ((x, y), g2))"

partial_function (option) generate_cluster_location ::
  "(string \<times> Cluster) list \<Rightarrow> Colour \<Rightarrow> nat stream \<Rightarrow> ((int \<times> int) \<times> nat stream) option" where
  "generate_cluster_location cs colour g =
     (case cluster_candidate colour g of
        ((x, y), g2) \<Rightarrow>
          if obstacle x y then generate_cluster_location cs colour g2
          else if list_ex (\<lambda>(_, cluster). cluster_clash cluster x y) cs
               then generate_cluster_location cs colour g2
               else Some ((x, y), g2))"

definition item_clash :: "string \<Rightarrow> Item \<Rightarrow> real \<Rightarrow> real \<Rightarrow> bool" where
  "item_clash cid item x y =
     (cluster_id item = cid \<and> math_dist (item_x item, item_y item) (x, y) < 0.3)"

definition item_offset :: "nat stream \<Rightarrow> (real \<times> real) \<times> nat stream" where
  "item_offset g =
     (let (radius, g1) = uniform 0 0.5 g;
          (deg, g2) = uniform 0 360 g1;
          angle = radians deg
      in ((round2 (radius * cos angle), round2 (radius * sin angle)), g2))"

partial_function (option) generate_item_position ::
  "(string \<times> Cluster) list \<Rightarrow> (string \<times> Item) list \<Rightarrow> string \<Rightarrow> nat stream \<Rightarrow>
     (error + (real \<times> real) \<times> nat stream) option" where
  "generate_item_position cs its cid g =
     (case item_offset g of
        ((dx, dy), g2) \<Rightarrow>
          (case map_of cs cid of
             None \<Rightarrow> Some (Inl KeyError)
           | Some cluster \<Rightarrow>
               (let x = real_of_int (cluster_x cluster) + dx;
                    y = real_of_int (cluster_y cluster) + dy
                in if list_ex (\<lambda>(_, item). item_clash cid item x y) its
                   then generate_item_position cs its cid g2
                   else Some (Inr ((x, y), g2)))))"

subsection \<open>\<^verbatim>\<open>offload_item\<close>\<close>

definition offload_item ::
  "ItemManager \<Rightarrow> string \<Rightarrow> (error + ItemManager \<times> Response \<times> backend_call list) option" where
  "offload_item s robot_id =
     (case map_of (robots s) robot_id of
        None \<Rightarrow>
          Some (Inr (s, \<lparr>success = False,
                         message = ''Unable to find robot_id '' @ quoted robot_id\<rparr>, []))
      | Some robot \<Rightarrow>
          (case item_held robot of
             None \<Rightarrow>
               Some (Inr (s, \<lparr>success = False,
                              message = ''Robot '' @ quoted robot_id @
                                '' does not hold any items, so unable to offload.''\<rparr>, []))
           | Some held \<Rightarrow>
               (let zone = get_robot_zone (zones s) robot in
                case allowed_drop_in_zone s robot zone of
                  Inl e \<Rightarrow> Some (Inl e)
                | Inr False \<Rightarrow>
                    Some (Inr
                      (s\<lparr>robots := AList.update robot_id (robot\<lparr>item_held := None\<rparr>) (robots s)\<rparr>,
                       \<lparr>success = True,
                        message = ''Item '' @ quoted held @ '' held by robot '' @ quoted robot_id @
                          '' has been offloaded in the arena.''\<rparr>,
                       [SetEntityState held robot_id 0 0 0]))
                | Inr True \<Rightarrow>
                    (case zone of
                       None \<Rightarrow> Some (Inl KeyError)
                     | Some (l, z) \<Rightarrow>
                    (case map_of (items s) held of
                       None \<Rightarrow> Some (Inl KeyError)
                     | Some item \<Rightarrow>
                    (case map_of (items_returned z) (item_colour item) of
                       None \<Rightarrow> Some (Inl KeyError)
                     | Some n \<Rightarrow>
                    (let z' = z\<lparr>items_returned :=
                                 AList.update (item_colour item) (n + 1) (items_returned z)\<rparr>;
                         zs' = AList.update l z' (zones s)
                     in case generate_item_position (clusters s) (items s) (cluster_id item) (rng s) of
                          None \<Rightarrow> None
                        | Some (Inl e) \<Rightarrow> Some (Inl e)
                        | Some (Inr ((x, y), g)) \<Rightarrow>
                            (let item' = item\<lparr>item_x := x, item_y := y\<rparr>;
                                 robot' = robot\<lparr>item_held := None, previous_item_held := None\<rparr>
                             in Some (Inr
                                  (s\<lparr>robots := AList.update robot_id robot' (robots s),
                                     items := AList.update held item' (items s),
                                     zones := zs',
                                     rng := g\<rparr>,
                                   \<lparr>success = True,
                                    message = ''Item '' @ quoted (str_option (item_held robot')) @
                                      '' held by robot '' @ quoted robot_id @
                                      '' has been offloaded at zone '' @
                                      quoted (str_location (zone_location z')) @ ''.''\<rparr>,
                                   [SetEntityState held ''world'' (item_x item') (item_y item') 0]))))))))))"

subsection \<open>\<^verbatim>\<open>control_loop\<close>\<close>

text \<open>
  First-run seeding. The colour of a cluster is drawn again while two clusters already
  have it.
\<close>

definition colour_count :: "(string \<times> Cluster) list \<Rightarrow> Colour \<Rightarrow> nat" where
  "colour_count cs colour = length (filter (\<lambda>(_, cluster). colour = cluster_colour cluster) cs)"

partial_function (option) choose_colour ::
  "(string \<times> Cluster) list \<Rightarrow> Colour \<Rightarrow> nat stream \<Rightarrow> (Colour \<times> nat stream) option" where
  "choose_colour cs colour g =
     (if colour_count cs colour < 2 then Some (colour, g)
      else (case choice [RED, GREEN, BLUE] g of (colour', g') \<Rightarrow> choose_colour cs colour' g'))"

text \<open>
  \<^verbatim>\<open>spawn_item\<close> sends the spawn request in the world frame and counts it in
  \<open>item_counter\<close>, for every entity it spawns.
\<close>

definition spawn_item ::
  "ItemManager \<Rightarrow> string \<Rightarrow> real \<Rightarrow> real \<Rightarrow> Colour \<Rightarrow> real \<Rightarrow> ItemManager \<times> backend_call" where
  "spawn_item s name x y colour z =
     (s\<lparr>item_counter := item_counter s + 1\<rparr>, SpawnEntity name colour x y z)"

text \<open>The loop \<^verbatim>\<open>for j in range(n)\<close> that fills one cluster.\<close>

fun seed_items ::
  "nat \<Rightarrow> string \<Rightarrow> Colour \<Rightarrow> ItemManager \<Rightarrow> (error + ItemManager \<times> backend_call list) option" where
  "seed_items 0 cid colour s = Some (Inr (s, []))"
| "seed_items (Suc j) cid colour s =
     (case generate_item_position (clusters s) (items s) cid (rng s) of
        None \<Rightarrow> None
      | Some (Inl e) \<Rightarrow> Some (Inl e)
      | Some (Inr ((x, y), g)) \<Rightarrow>
          (let item_id = ''item'' @ str (item_counter s);
               s1 = s\<lparr>items := AList.update item_id
                             \<lparr>item_x = x, item_y = y, item_colour = colour, cluster_id = cid\<rparr>
                             (items s),
                       rng := g\<rparr>;
               (s2, call) = spawn_item s1 item_id x y colour 0
           in case seed_items j cid colour s2 of
                None \<Rightarrow> None
              | Some (Inl e) \<Rightarrow> Some (Inl e)
              | Some (Inr (s3, calls)) \<Rightarrow> Some (Inr (s3, call # calls))))"

text \<open>The loop \<^verbatim>\<open>for i in range(6)\<close> that creates the clusters.\<close>

fun seed_clusters ::
  "nat \<Rightarrow> ItemManager \<Rightarrow> (error + ItemManager \<times> backend_call list) option" where
  "seed_clusters 0 s = Some (Inr (s, []))"
| "seed_clusters (Suc i) s =
     (case choice [RED, GREEN, BLUE] (rng s) of
        (colour0, g0) \<Rightarrow>
     (case choose_colour (clusters s) colour0 g0 of
        None \<Rightarrow> None
      | Some (colour, g1) \<Rightarrow>
          (let cid = ''cluster'' @ str (cluster_counter s) in
           case generate_cluster_location (clusters s) colour g1 of
             None \<Rightarrow> None
           | Some ((x, y), g2) \<Rightarrow>
               (let s1 = s\<lparr>clusters := AList.update cid
                                \<lparr>cluster_x = x, cluster_y = y, cluster_colour = colour\<rparr>
                                (clusters s),
                          cluster_counter := cluster_counter s + 1\<rparr>
                in case randint 3 5 g2 of
                     (n, g3) \<Rightarrow>
                       (case seed_items (nat n) cid colour (s1\<lparr>rng := g3\<rparr>) of
                          None \<Rightarrow> None
                        | Some (Inl e) \<Rightarrow> Some (Inl e)
                        | Some (Inr (s2, calls)) \<Rightarrow>
                            (case seed_clusters i s2 of
                               None \<Rightarrow> None
                             | Some (Inl e) \<Rightarrow> Some (Inl e)
                             | Some (Inr (s3, calls')) \<Rightarrow> Some (Inr (s3, calls @ calls'))))))))"

text \<open>Robot discovery: every reported model whose name contains \<^verbatim>\<open>robot\<close>.\<close>

fun discover_robots :: "string list \<Rightarrow> (string \<times> Robot) list \<Rightarrow> (string \<times> Robot) list" where
  "discover_robots [] rs = rs"
| "discover_robots (model_name # names) rs =
     discover_robots names
       (if contains ''robot'' model_name \<and> map_of rs model_name = None
        then AList.update model_name (new_robot 0 0) rs
        else rs)"

text \<open>
  Pose synchronisation, robot by robot in the dictionary's order. \<open>pose\<close> is the
  backend's answer to \<^verbatim>\<open>get_entity_state\<close>. The inner loop over the items of the
  source only executes \<^verbatim>\<open>continue\<close> and has no effect.
\<close>

fun sync_robots ::
  "(string \<Rightarrow> real \<times> real) \<Rightarrow> (string \<times> Robot) list \<Rightarrow> (string \<times> Item) list \<Rightarrow>
     error + (string \<times> Robot) list \<times> (string \<times> Item) list \<times> backend_call list" where
  "sync_robots pose [] its = Inr ([], its, [])"
| "sync_robots pose ((robot_id, robot) # rest) its =
     (let robot' = robot\<lparr>robot_x := round2 (fst (pose robot_id)),
                         robot_y := round2 (snd (pose robot_id))\<rparr>
      in case item_held robot' of
           None \<Rightarrow>
             (case sync_robots pose rest its of
                Inl e \<Rightarrow> Inl e
              | Inr (rs, its', calls) \<Rightarrow>
                  Inr ((robot_id, robot') # rs, its', GetEntityState robot_id # calls))
         | Some held \<Rightarrow>
             (case map_of its held of
                None \<Rightarrow> Inl KeyError
              | Some item \<Rightarrow>
                  (let its1 = AList.update held
                                (item\<lparr>item_x := robot_x robot', item_y := robot_y robot'\<rparr>) its
                   in case sync_robots pose rest its1 of
                        Inl e \<Rightarrow> Inl e
                      | Inr (rs, its', calls) \<Rightarrow>
                          Inr ((robot_id, robot') # rs, its',
                               GetEntityState robot_id #
                               SetEntityState held robot_id 0 0 0.15 # calls))))"

text \<open>Telemetry: the holder records and the aggregate log.\<close>

fun item_holders :: "(string \<times> Robot) list \<Rightarrow> (string \<times> Item) list \<Rightarrow> error + ItemHolder list" where
  "item_holders [] its = Inr []"
| "item_holders ((robot_id, robot) # rest) its =
     (case (case item_held robot of
              None \<Rightarrow>
                Inr \<lparr>holder_robot_id = robot_id, holding_item = False,
                     holder_item_colour = [], holder_item_value = 0\<rparr>
            | Some _ \<Rightarrow>
                (case held_item its robot of
                   Inl e \<Rightarrow> Inl e
                 | Inr item \<Rightarrow>
                     Inr \<lparr>holder_robot_id = robot_id, holding_item = True,
                          holder_item_colour = colour_name (item_colour item),
                          holder_item_value = item_values (item_colour item)\<rparr>)) of
        Inl e \<Rightarrow> Inl e
      | Inr h \<Rightarrow> (case item_holders rest its of Inl e \<Rightarrow> Inl e | Inr hs \<Rightarrow> Inr (h # hs)))"

fun returned_count :: "(ZoneLocation \<times> Zone) list \<Rightarrow> Colour \<Rightarrow> error + int" where
  "returned_count [] colour = Inr 0"
| "returned_count ((l, zone) # rest) colour =
     (case map_of (items_returned zone) colour of
        None \<Rightarrow> Inl KeyError
      | Some n \<Rightarrow> (case returned_count rest colour of Inl e \<Rightarrow> Inl e | Inr m \<Rightarrow> Inr (n + m)))"

definition item_log :: "(ZoneLocation \<times> Zone) list \<Rightarrow> error + ItemLog" where
  "item_log zs =
     (case returned_count zs RED of Inl e \<Rightarrow> Inl e | Inr r \<Rightarrow>
     (case returned_count zs GREEN of Inl e \<Rightarrow> Inl e | Inr g \<Rightarrow>
     (case returned_count zs BLUE of Inl e \<Rightarrow> Inl e | Inr b \<Rightarrow>
        Inr \<lparr>red_count = r, green_count = g, blue_count = b, total_count = r + g + b,
             red_value = r * item_values RED, green_value = g * item_values GREEN,
             blue_value = b * item_values BLUE,
             total_value = r * item_values RED + g * item_values GREEN + b * item_values BLUE\<rparr>)))"

text \<open>
  One tick. \<open>model_names\<close> is the backend's answer to \<^verbatim>\<open>get_model_list\<close> and
  \<open>pose\<close> its answer to \<^verbatim>\<open>get_entity_state\<close>.
\<close>

definition control_loop ::
  "ItemManager \<Rightarrow> string list \<Rightarrow> (string \<Rightarrow> real \<times> real) \<Rightarrow>
     (error + ItemManager \<times> backend_call list) option" where
  "control_loop s model_names pose =
     (case (if first_run s then seed_clusters 6 (s\<lparr>first_run := False\<rparr>)
            else Some (Inr (s, []))) of
        None \<Rightarrow> None
      | Some (Inl e) \<Rightarrow> Some (Inl e)
      | Some (Inr (s1, spawns)) \<Rightarrow>
          (case spawn_item s1 ''ready'' 0 0 RED (- 0.5) of
             (s2, ready) \<Rightarrow>
          (let s3 = s2\<lparr>robots := discover_robots model_names (robots s2)\<rparr>
           in case sync_robots pose (robots s3) (items s3) of
                Inl e \<Rightarrow> Some (Inl e)
              | Inr (rs, its, calls) \<Rightarrow>
                  (let s4 = s3\<lparr>robots := rs, items := its\<rparr>
                   in case item_holders (robots s4) (items s4) of
                        Inl e \<Rightarrow> Some (Inl e)
                      | Inr holders \<Rightarrow>
                          (case item_log (zones s4) of
                             Inl e \<Rightarrow> Some (Inl e)
                           | Inr ilog \<Rightarrow>
                               Some (Inr (s4, spawns @ [ready, GetModelList] @ calls @
                                              [PublishItemHolders holders, PublishItemLog ilog])))))))"

subsection \<open>Runs of the node\<close>

text \<open>
  A run is a sequence of callbacks. A callback that raises or does not return has no
  successor state.
\<close>

datatype event =
    PickUp string
  | Offload string
  | Tick "string list" "string \<Rightarrow> real \<times> real"

fun step :: "ItemManager \<Rightarrow> event \<Rightarrow> ItemManager option" where
  "step s (PickUp robot_id) = Some (fst (pick_up_item s robot_id))"
| "step s (Offload robot_id) =
     (case offload_item s robot_id of Some (Inr (s', _, _)) \<Rightarrow> Some s' | _ \<Rightarrow> None)"
| "step s (Tick model_names pose) =
     (case control_loop s model_names pose of Some (Inr (s', _)) \<Rightarrow> Some s' | _ \<Rightarrow> None)"

fun exec :: "ItemManager \<Rightarrow> event list \<Rightarrow> ItemManager option" where
  "exec s [] = Some s"
| "exec s (e # es) = (case step s e of None \<Rightarrow> None | Some s' \<Rightarrow> exec s' es)"

inductive reachable :: "ItemManager \<Rightarrow> bool" where
  reachable_init: "reachable (init_state ztl ztr zbl zbr seed)"
| reachable_step: "reachable s \<Longrightarrow> step s e = Some s' \<Longrightarrow> reachable s'"


subsection \<open>Notions the properties are stated with\<close>

text \<open>
  An item is in reach of a robot when the distance that \<^verbatim>\<open>math.dist\<close> computes for
  them in double precision is less than the double \<open>DISTANCE\<close>.
\<close>

definition in_range :: "Robot \<Rightarrow> Item \<Rightarrow> bool" where
  "in_range robot item \<longleftrightarrow>
     float_dist (robot_x robot, robot_y robot) (item_x item, item_y item) < DISTANCE"



text \<open>The state after a deposit of \<open>held\<close> in the zone at \<open>l\<close>, relocated to \<open>(x, y)\<close>.\<close>

definition deposit_state ::
  "ItemManager \<Rightarrow> string \<Rightarrow> Robot \<Rightarrow> string \<Rightarrow> Item \<Rightarrow> ZoneLocation \<Rightarrow> Zone \<Rightarrow> int \<Rightarrow>
     real \<Rightarrow> real \<Rightarrow> nat stream \<Rightarrow> ItemManager" where
  "deposit_state s rid robot held item l z n x y g =
     s\<lparr>robots := AList.update rid (robot\<lparr>item_held := None, previous_item_held := None\<rparr>) (robots s),
       items := AList.update held (item\<lparr>item_x := x, item_y := y\<rparr>) (items s),
       zones := AList.update l
                  (z\<lparr>items_returned := AList.update (item_colour item) (n + 1) (items_returned z)\<rparr>)
                  (zones s),
       rng := g\<rparr>"

text \<open>
  A small arena for the scenarios of the specification: one robot \<open>r1\<close> at \<open>(x, y)\<close>
  holding \<open>held\<close>, a red cluster with two items, a green cluster with one, and the
  top-left zone with \<open>reds\<close> red items returned.
\<close>

definition scenario :: "real \<Rightarrow> real \<Rightarrow> string option \<Rightarrow> int \<Rightarrow> ItemManager" where
  "scenario x y held reds =
     \<lparr>first_run = False,
      clusters = [(''cluster0'', \<lparr>cluster_x = - 2, cluster_y = - 2, cluster_colour = RED\<rparr>),
                  (''cluster1'', \<lparr>cluster_x = 0, cluster_y = 0, cluster_colour = GREEN\<rparr>)],
      robots = [(''r1'', \<lparr>robot_x = x, robot_y = y, item_held = held, previous_item_held = None\<rparr>)],
      items = [(''item0'', \<lparr>item_x = - 2, item_y = - 2, item_colour = RED, cluster_id = ''cluster0''\<rparr>),
               (''item1'', \<lparr>item_x = - 1.62, item_y = - 2, item_colour = RED, cluster_id = ''cluster0''\<rparr>),
               (''item2'', \<lparr>item_x = 0, item_y = 0, item_colour = GREEN, cluster_id = ''cluster1''\<rparr>)],
      zones = [(TOP_LEFT, \<lparr>zone_location = TOP_LEFT, zone_x = 2.57, zone_y = 2.5,
                            items_returned = [(RED, reds), (GREEN, 0), (BLUE, 0)]\<rparr>),
               new_zone TOP_RIGHT 2.57 (- 2.46)],
      cluster_counter = 2, item_counter = 4,
      rng = 6755399441055744 ## 4503599627370496 ## sconst 0\<rparr>"

text \<open>The message of the response to an offload request, when the call returns one.\<close>

definition offload_message :: "ItemManager \<Rightarrow> string \<Rightarrow> string option" where
  "offload_message s rid =
     (case offload_item s rid of
        Some (Inr (s', resp, calls)) \<Rightarrow> Some (message resp)
      | _ \<Rightarrow> None)"

text \<open>
  The shape the counters of a zone have in every run: one entry per colour, in the order
  of the enumeration, none negative, and at most one of them positive.
\<close>

definition counters_ok :: "(Colour \<times> int) list \<Rightarrow> bool" where
  "counters_ok cnt \<longleftrightarrow>
     map fst cnt = [RED, GREEN, BLUE] \<and> list_all (\<lambda>(c, n). 0 \<le> n) cnt \<and>
     length (filter (\<lambda>(c, n). 1 \<le> n) cnt) \<le> 1"

text \<open>
  Well-formed states: zone keys are distinct and every zone has counters of that shape,
  a held item is an item of the item map, and the cluster of every item is a cluster of
  the cluster map.
\<close>

definition wf_state :: "ItemManager \<Rightarrow> bool" where
  "wf_state s \<longleftrightarrow>
     distinct (map fst (zones s)) \<and>
     list_all (\<lambda>(l, z). counters_ok (items_returned z)) (zones s) \<and>
     list_all (\<lambda>(rid, robot). case item_held robot of
                                  None \<Rightarrow> True
                                | Some i \<Rightarrow> map_of (items s) i \<noteq> None) (robots s) \<and>
     list_all (\<lambda>(i, item). map_of (clusters s) (cluster_id item) \<noteq> None) (items s)"

text \<open>The counter of colour \<open>c\<close> in the zone at \<open>l\<close>, when there is one.\<close>

definition zone_count :: "ItemManager \<Rightarrow> ZoneLocation \<Rightarrow> Colour \<Rightarrow> int option" where
  "zone_count s l c =
     (case map_of (zones s) l of
        None \<Rightarrow> None
      | Some z \<Rightarrow> map_of (items_returned z) c)"

text \<open>A backend that reports every entity at the origin.\<close>

definition origin_pose :: "string \<Rightarrow> real \<times> real" where
  "origin_pose name = (0, 0)"

text \<open>
  A run from the initial state. The draws seed six clusters of three items each: per
  cluster one draw for the colour, two for the location, one for the number of items and
  two for every item. The backend reports two robots, one at the place of the first
  item and the other 0.2 units beside it.
\<close>

definition demo_cluster_draws :: "nat \<Rightarrow> nat \<Rightarrow> nat \<Rightarrow> nat list" where
  "demo_cluster_draws c y x =
     [c, y, x, 0, 0, 0, 6755399441055744, 0, 6755399441055744, 4503599627370496]"

definition demo_seed :: "nat stream" where
  "demo_seed =
     (demo_cluster_draws 0 0 0 @ demo_cluster_draws 0 2 0 @
      demo_cluster_draws 1 0 1 @ demo_cluster_draws 1 2 1 @
      demo_cluster_draws 2 0 1 @ demo_cluster_draws 2 2 1) @- sconst 0"

definition demo_pose :: "string \<Rightarrow> real \<times> real" where
  "demo_pose name = (if name = ''robot2'' then (- 1.8, - 2) else (- 2, - 2))"

definition demo_run :: "event list" where
  "demo_run =
     [Tick [''ground_plane'', ''robot1'', ''robot2''] demo_pose,
      PickUp ''robot1'', PickUp ''robot2'']"

text \<open>The arena these draws seed, and the state once the two robots are tracked.\<close>

definition demo_clusters :: "(string \<times> Cluster) list" where
  "demo_clusters =
     [(''cluster0'', \<lparr>cluster_x = - 2, cluster_y = - 2, cluster_colour = RED\<rparr>),
      (''cluster1'', \<lparr>cluster_x = - 2, cluster_y = 0, cluster_colour = RED\<rparr>),
      (''cluster2'', \<lparr>cluster_x = 0, cluster_y = - 2, cluster_colour = GREEN\<rparr>),
      (''cluster3'', \<lparr>cluster_x = 0, cluster_y = 0, cluster_colour = GREEN\<rparr>),
      (''cluster4'', \<lparr>cluster_x = 2, cluster_y = - 2, cluster_colour = BLUE\<rparr>),
      (''cluster5'', \<lparr>cluster_x = 2, cluster_y = 0, cluster_colour = BLUE\<rparr>)]"

definition demo_items :: "(string \<times> Item) list" where
  "demo_items =
     [(''item0'', \<lparr>item_x = - 2, item_y = - 2, item_colour = RED, cluster_id = ''cluster0''\<rparr>),
      (''item1'', \<lparr>item_x = - 1.62, item_y = - 2, item_colour = RED, cluster_id = ''cluster0''\<rparr>),
      (''item2'', \<lparr>item_x = - 2.38, item_y = - 2, item_colour = RED, cluster_id = ''cluster0''\<rparr>),
      (''item3'', \<lparr>item_x = - 2, item_y = 0, item_colour = RED, cluster_id = ''cluster1''\<rparr>),
      (''item4'', \<lparr>item_x = - 1.62, item_y = 0, item_colour = RED, cluster_id = ''cluster1''\<rparr>),
      (''item5'', \<lparr>item_x = - 2.38, item_y = 0, item_colour = RED, cluster_id = ''cluster1''\<rparr>),
      (''item6'', \<lparr>item_x = 0, item_y = - 2, item_colour = GREEN, cluster_id = ''cluster2''\<rparr>),
      (''item7'', \<lparr>item_x = 0.38, item_y = - 2, item_colour = GREEN, cluster_id = ''cluster2''\<rparr>),
      (''item8'', \<lparr>item_x = - 0.38, item_y = - 2, item_colour = GREEN, cluster_id = ''cluster2''\<rparr>),
      (''item9'', \<lparr>item_x = 0, item_y = 0, item_colour = GREEN, cluster_id = ''cluster3''\<rparr>),
      (''item10'', \<lparr>item_x = 0.38, item_y = 0, item_colour = GREEN, cluster_id = ''cluster3''\<rparr>),
      (''item11'', \<lparr>item_x = - 0.38, item_y = 0, item_colour = GREEN, cluster_id = ''cluster3''\<rparr>),
      (''item12'', \<lparr>item_x = 2, item_y = - 2, item_colour = BLUE, cluster_id = ''cluster4''\<rparr>),
      (''item13'', \<lparr>item_x = 2.38, item_y = - 2, item_colour = BLUE, cluster_id = ''cluster4''\<rparr>),
      (''item14'', \<lparr>item_x = 1.62, item_y = - 2, item_colour = BLUE, cluster_id = ''cluster4''\<rparr>),
      (''item15'', \<lparr>item_x = 2, item_y = 0, item_colour = BLUE, cluster_id = ''cluster5''\<rparr>),
      (''item16'', \<lparr>item_x = 2.38, item_y = 0, item_colour = BLUE, cluster_id = ''cluster5''\<rparr>),
      (''item17'', \<lparr>item_x = 1.62, item_y = 0, item_colour = BLUE, cluster_id = ''cluster5''\<rparr>)]"

definition demo_arena :: ItemManager where
  "demo_arena =
     init_state True True True True (sconst 0)
       \<lparr>first_run := False, clusters := demo_clusters, items := demo_items,
         cluster_counter := 6, item_counter := 18\<rparr>"

definition demo_tracked :: "string option \<Rightarrow> string option \<Rightarrow> ItemManager" where
  "demo_tracked h1 h2 =
     demo_arena
       \<lparr>item_counter := 19,
         robots := [(''robot1'', \<lparr>robot_x = - 2, robot_y = - 2, item_held = h1,
                                  previous_item_held = None\<rparr>),
                    (''robot2'', \<lparr>robot_x = - 1.8, robot_y = - 2, item_held = h2,
                                  previous_item_held = None\<rparr>)]\<rparr>"

text \<open>The robots that hold item \<open>i\<close> at the end of a run.\<close>

definition holders_of :: "ItemManager option \<Rightarrow> string \<Rightarrow> string list" where
  "holders_of so i =
     (case so of
        None \<Rightarrow> []
      | Some s \<Rightarrow> map fst (filter (\<lambda>(rid, robot). item_held robot = Some i) (robots s)))"

section \<open>Properties\<close>

subsection \<open>Distances\<close>

lemma math_dist_less_iff:
  "0 < d \<Longrightarrow> math_dist p q < d \<longleftrightarrow> (fst p - fst q)\<^sup>2 + (snd p - snd q)\<^sup>2 < d\<^sup>2"
  unfolding math_dist_def
  by (metis real_sqrt_less_iff real_sqrt_abs abs_of_pos)

lemma math_dist_le_iff:
  "0 < d \<Longrightarrow> math_dist p q \<le> d \<longleftrightarrow> (fst p - fst q)\<^sup>2 + (snd p - snd q)\<^sup>2 \<le> d\<^sup>2"
  unfolding math_dist_def
  by (metis real_sqrt_le_iff real_sqrt_abs abs_of_pos)

subsection \<open>Double precision\<close>

lemma round_half_even_floor: "\<lfloor>v\<rfloor> \<le> round_half_even v \<and> round_half_even v \<le> \<lfloor>v\<rfloor> + 1"
  by (simp add: round_half_even_def Let_def)

lemma round_half_even_error: "\<bar>real_of_int (round_half_even v) - v\<bar> \<le> 1 / 2"
proof -
  have "real_of_int \<lfloor>v\<rfloor> \<le> v" "v < real_of_int \<lfloor>v\<rfloor> + 1" by linarith+
  then show ?thesis
    by (auto simp: round_half_even_def Let_def abs_le_iff)
qed

lemma round_half_even_of_int: "round_half_even (real_of_int k) = k"
  by (simp add: round_half_even_def)

lemma round_half_even_less_even:
  assumes "even k"
  shows "round_half_even v < k \<longleftrightarrow> v < real_of_int k - 1 / 2"
proof
  assume l: "round_half_even v < k"
  show "v < real_of_int k - 1 / 2"
  proof (rule ccontr)
    assume "\<not> v < real_of_int k - 1 / 2"
    then have v: "real_of_int k - 1 / 2 \<le> v" by simp
    then have "real_of_int (k - 1) \<le> v" by simp
    then have f: "k - 1 \<le> \<lfloor>v\<rfloor>" by (simp only: le_floor_iff)
    from l round_half_even_floor [of v] have "\<lfloor>v\<rfloor> < k" by linarith
    with f have e: "\<lfloor>v\<rfloor> = k - 1" by linarith
    with assms have o: "odd \<lfloor>v\<rfloor>" by simp
    from e v have "1 / 2 \<le> v - real_of_int \<lfloor>v\<rfloor>" by simp
    with o e have "round_half_even v = k"
      by (auto simp: round_half_even_def Let_def)
    with l show False by simp
  qed
next
  assume v: "v < real_of_int k - 1 / 2"
  then have "v < real_of_int k" by simp
  then have f: "\<lfloor>v\<rfloor> \<le> k - 1" by (simp add: floor_less_iff)
  show "round_half_even v < k"
  proof (cases "\<lfloor>v\<rfloor> = k - 1")
    case True
    with v have "v - real_of_int \<lfloor>v\<rfloor> < 1 / 2" by simp
    with True show ?thesis by (simp add: round_half_even_def Let_def)
  next
    case False
    with f have "\<lfloor>v\<rfloor> + 1 < k" by linarith
    with round_half_even_floor [of v] show ?thesis by linarith
  qed
qed

text \<open>The exponent of a non-zero number.\<close>

lemma binade:
  assumes "v \<noteq> 0"
  shows "2 powr real_of_int \<lfloor>log 2 \<bar>v\<bar>\<rfloor> \<le> \<bar>v\<bar>"
    and "\<bar>v\<bar> < 2 powr (real_of_int \<lfloor>log 2 \<bar>v\<bar>\<rfloor> + 1)"
proof -
  from assms have p: "0 < \<bar>v\<bar>" by simp
  have "real_of_int \<lfloor>log 2 \<bar>v\<bar>\<rfloor> \<le> log 2 \<bar>v\<bar>" by linarith
  then have "2 powr real_of_int \<lfloor>log 2 \<bar>v\<bar>\<rfloor> \<le> 2 powr log 2 \<bar>v\<bar>"
    by (simp only: powr_le_cancel_iff) 
  with p show "2 powr real_of_int \<lfloor>log 2 \<bar>v\<bar>\<rfloor> \<le> \<bar>v\<bar>" by simp
  have "log 2 \<bar>v\<bar> < real_of_int \<lfloor>log 2 \<bar>v\<bar>\<rfloor> + 1" by linarith
  then have "2 powr log 2 \<bar>v\<bar> < 2 powr (real_of_int \<lfloor>log 2 \<bar>v\<bar>\<rfloor> + 1)"
    by (simp only: powr_less_cancel_iff)
  with p show "\<bar>v\<bar> < 2 powr (real_of_int \<lfloor>log 2 \<bar>v\<bar>\<rfloor> + 1)" by simp
qed

lemma binary64_scaled:
  assumes "v \<noteq> 0"
  shows "binary64 v =
    real_of_int (round_half_even (v * 2 powr (52 - real_of_int \<lfloor>log 2 \<bar>v\<bar>\<rfloor>))) /
      2 powr (52 - real_of_int \<lfloor>log 2 \<bar>v\<bar>\<rfloor>)"
proof -
  have "2 powr (real_of_int \<lfloor>log 2 \<bar>v\<bar>\<rfloor> - 52) = 1 / 2 powr (52 - real_of_int \<lfloor>log 2 \<bar>v\<bar>\<rfloor>)"
    by (simp flip: powr_minus_divide)
  with assms show ?thesis by (simp add: binary64_def Let_def)
qed

lemma binary64_error: "\<bar>binary64 v - v\<bar> \<le> \<bar>v\<bar> / 2 ^ 53"
proof (cases "v = 0")
  case True
  then show ?thesis by (simp add: binary64_def)
next
  case False
  define e where "e = real_of_int \<lfloor>log 2 \<bar>v\<bar>\<rfloor>"
  define p where "p = 2 powr (52 - e)"
  have p: "0 < p" by (simp add: p_def)
  have b: "binary64 v = real_of_int (round_half_even (v * p)) / p"
    using binary64_scaled [OF False] by (simp add: p_def e_def)
  have "\<bar>real_of_int (round_half_even (v * p)) - v * p\<bar> \<le> 1 / 2"
    by (rule round_half_even_error)
  then have "\<bar>real_of_int (round_half_even (v * p)) - v * p\<bar> / p \<le> (1 / 2) / p"
    using p by (intro divide_right_mono) simp_all
  moreover have "\<bar>real_of_int (round_half_even (v * p)) - v * p\<bar> / p = \<bar>binary64 v - v\<bar>"
  proof -
    have "binary64 v - v = (real_of_int (round_half_even (v * p)) - v * p) / p"
      using p by (simp add: b field_simps)
    then show ?thesis using p by simp
  qed
  ultimately have 1: "\<bar>binary64 v - v\<bar> \<le> 1 / (2 * p)" by simp
  have "2 powr e \<le> \<bar>v\<bar>" unfolding e_def using binade(1) [OF False] .
  moreover have "2 powr e = 2 ^ 52 / p"
    by (simp add: p_def powr_diff)
  ultimately have "2 ^ 52 / p \<le> \<bar>v\<bar>" by simp
  then have "2 ^ 52 / p / 2 ^ 53 \<le> \<bar>v\<bar> / 2 ^ 53"
    by (simp add: divide_right_mono)
  moreover have "2 ^ 52 / p / 2 ^ 53 = 1 / (2 * p)" by simp
  ultimately show ?thesis using 1 by linarith
qed

lemma binary64_eval:
  assumes "2 ^ 52 \<le> \<bar>v\<bar> * 2 ^ j" and "\<bar>v\<bar> * 2 ^ j < 2 ^ 53"
  shows "binary64 v = real_of_int (round_half_even (v * 2 ^ j)) / 2 ^ j"
proof -
  from assms(1) have nz: "v \<noteq> 0" by auto
  then have p: "0 < \<bar>v\<bar>" by simp
  have "log 2 (\<bar>v\<bar> * 2 ^ j) = log 2 \<bar>v\<bar> + real j"
    using p by (simp add: log_mult log_nat_power)
  moreover have "52 \<le> log 2 (\<bar>v\<bar> * 2 ^ j)"
    using assms(1) p by (subst le_log_iff) (simp_all add: powr_numeral)
  moreover have "log 2 (\<bar>v\<bar> * 2 ^ j) < 53"
    using assms(2) p by (subst log_less_iff) (simp_all add: powr_numeral)
  ultimately have "52 - real j \<le> log 2 \<bar>v\<bar>" "log 2 \<bar>v\<bar> < 52 - real j + 1" by linarith+
  then have "\<lfloor>log 2 \<bar>v\<bar>\<rfloor> = 52 - int j"
    by (intro floor_unique) simp_all
  then have "52 - real_of_int \<lfloor>log 2 \<bar>v\<bar>\<rfloor> = real j" by simp
  with binary64_scaled [OF nz] show ?thesis by (simp add: powr_realpow)
qed

text \<open>The comparison with \<open>DISTANCE\<close>, without the two roundings of the result.\<close>

lemma DISTANCE_eval: "DISTANCE = 6305039478318694 / 2 ^ 54"
  unfolding DISTANCE_def
  by (subst binary64_eval [of _ 54]) (simp_all add: round_half_even_def)

lemma binary64_less_DISTANCE:
  assumes "0 \<le> y"
  shows "binary64 y < DISTANCE \<longleftrightarrow> y < 12610078956637387 / 2 ^ 55"
proof -
  have e: "\<bar>binary64 y - y\<bar> \<le> y / 2 ^ 53"
    using binary64_error [of y] assms by simp
  consider "y < 1 / 4" | "1 / 4 \<le> y" "y < 1 / 2" | "1 / 2 \<le> y" by linarith
  then show ?thesis
  proof cases
    case 1
    from e have "binary64 y \<le> y + y / 2 ^ 53" by linarith
    with 1 assms have "binary64 y < DISTANCE" unfolding DISTANCE_eval by simp
    with 1 show ?thesis by simp
  next
    case 2
    have b: "binary64 y = real_of_int (round_half_even (y * 2 ^ 54)) / 2 ^ 54"
      using 2 by (intro binary64_eval) simp_all
    have "binary64 y < DISTANCE \<longleftrightarrow>
          real_of_int (round_half_even (y * 2 ^ 54)) < real_of_int 6305039478318694"
      unfolding DISTANCE_eval b by (simp add: divide_less_cancel)
    also have "\<dots> \<longleftrightarrow> round_half_even (y * 2 ^ 54) < 6305039478318694"
      by (simp only: of_int_less_iff)
    also have "\<dots> \<longleftrightarrow> y * 2 ^ 54 < real_of_int 6305039478318694 - 1 / 2"
      by (rule round_half_even_less_even) simp
    also have "\<dots> \<longleftrightarrow> y < 12610078956637387 / 2 ^ 55"
      by (simp add: field_simps)
    finally show ?thesis .
  next
    case 3
    from e have "y - y / 2 ^ 53 \<le> binary64 y" by linarith
    with 3 have "\<not> binary64 y < DISTANCE" unfolding DISTANCE_eval by simp
    with 3 show ?thesis by simp
  qed
qed

lemma within_DISTANCE_iff:
  "float_dist p q < DISTANCE \<longleftrightarrow>
     (float_diff (fst p) (fst q))\<^sup>2 + (float_diff (snd p) (snd q))\<^sup>2 <
       (12610078956637387 / 2 ^ 55)\<^sup>2"
proof -
  define s where "s = (float_diff (fst p) (fst q))\<^sup>2 + (float_diff (snd p) (snd q))\<^sup>2"
  have s0: "0 \<le> s" unfolding s_def by simp
  have m: "sqrt ((12610078956637387 / 2 ^ 55)\<^sup>2) = (12610078956637387 / 2 ^ 55 :: real)"
    by (simp only: real_sqrt_abs) simp
  have "float_dist p q < DISTANCE \<longleftrightarrow> sqrt s < 12610078956637387 / 2 ^ 55"
    unfolding float_dist_def s_def [symmetric] using s0 by (intro binary64_less_DISTANCE) simp
  also have "\<dots> \<longleftrightarrow> sqrt s < sqrt ((12610078956637387 / 2 ^ 55)\<^sup>2)"
    by (simp only: m)
  also have "\<dots> \<longleftrightarrow> s < (12610078956637387 / 2 ^ 55)\<^sup>2"
    by (rule real_sqrt_less_iff)
  finally show ?thesis unfolding s_def .
qed

text \<open>
  For coordinates of the arena the squared distance of the rounded differences is within
  \<open>2178 / 2 ^ 53\<close> of the exact one, so the comparison in double precision agrees with
  the exact one away from the threshold.
\<close>

lemma float_diff_error:
  assumes "\<bar>a\<bar> \<le> 8" and "\<bar>b\<bar> \<le> 8"
  shows "\<bar>float_diff a b - (a - b)\<bar> \<le> 33 / 2 ^ 53"
proof -
  define t where "t = binary64 a - binary64 b"
  have "\<bar>a\<bar> / 2 ^ 53 \<le> 8 / 2 ^ 53" "\<bar>b\<bar> / 2 ^ 53 \<le> 8 / 2 ^ 53"
    using assms by (simp_all add: divide_right_mono)
  with binary64_error [of a] binary64_error [of b]
  have ab: "\<bar>binary64 a - a\<bar> \<le> 8 / 2 ^ 53" "\<bar>binary64 b - b\<bar> \<le> 8 / 2 ^ 53"
    by linarith+
  then have t: "\<bar>t - (a - b)\<bar> \<le> 16 / 2 ^ 53" unfolding t_def by linarith
  moreover have "(16 :: real) / 2 ^ 53 \<le> 1" by simp
  ultimately have "\<bar>t\<bar> \<le> 17" using assms by linarith
  then have "\<bar>t\<bar> / 2 ^ 53 \<le> 17 / 2 ^ 53" by (simp add: divide_right_mono)
  with binary64_error [of t] have "\<bar>binary64 t - t\<bar> \<le> 17 / 2 ^ 53" by linarith
  with t show ?thesis unfolding float_diff_def t_def [symmetric] by linarith
qed

lemma square_error:
  assumes "\<bar>d' - d\<bar> \<le> 33 / 2 ^ 53" and "\<bar>d\<bar> \<le> (16 :: real)"
  shows "\<bar>d'\<^sup>2 - d\<^sup>2\<bar> \<le> 1089 / 2 ^ 53"
proof -
  have "d'\<^sup>2 - d\<^sup>2 = (d' - d) * (d' + d)" by (simp add: power2_eq_square algebra_simps)
  then have "\<bar>d'\<^sup>2 - d\<^sup>2\<bar> = \<bar>d' - d\<bar> * \<bar>d' + d\<bar>" by (simp add: abs_mult)
  moreover have "(33 :: real) / 2 ^ 53 \<le> 1" by simp
  with assms have "\<bar>d' + d\<bar> \<le> 33" by linarith
  then have "\<bar>d' - d\<bar> * \<bar>d' + d\<bar> \<le> (33 / 2 ^ 53) * 33"
    using assms(1) by (intro mult_mono) simp_all
  ultimately show ?thesis by simp
qed

lemma float_squares_error:
  assumes "\<bar>fst p\<bar> \<le> 8" "\<bar>snd p\<bar> \<le> 8" "\<bar>fst q\<bar> \<le> 8" "\<bar>snd q\<bar> \<le> 8"
  shows "\<bar>((float_diff (fst p) (fst q))\<^sup>2 + (float_diff (snd p) (snd q))\<^sup>2) -
          ((fst p - fst q)\<^sup>2 + (snd p - snd q)\<^sup>2)\<bar> \<le> 2178 / 2 ^ 53"
proof -
  have "\<bar>fst p - fst q\<bar> \<le> 16" "\<bar>snd p - snd q\<bar> \<le> 16" using assms by linarith+
  with square_error [OF float_diff_error [OF assms(1,3)]]
    square_error [OF float_diff_error [OF assms(2,4)]]
  have "\<bar>(float_diff (fst p) (fst q))\<^sup>2 - (fst p - fst q)\<^sup>2\<bar> \<le> 1089 / 2 ^ 53"
    "\<bar>(float_diff (snd p) (snd q))\<^sup>2 - (snd p - snd q)\<^sup>2\<bar> \<le> 1089 / 2 ^ 53"
    by blast+
  then show ?thesis by linarith
qed

lemma within_DISTANCE_exact:
  assumes "\<bar>fst p\<bar> \<le> 8" "\<bar>snd p\<bar> \<le> 8" "\<bar>fst q\<bar> \<le> 8" "\<bar>snd q\<bar> \<le> 8"
  shows "(fst p - fst q)\<^sup>2 + (snd p - snd q)\<^sup>2 \<le> 0.1225 - 1 / 10 ^ 12 \<Longrightarrow>
           float_dist p q < DISTANCE"
    and "float_dist p q < DISTANCE \<Longrightarrow>
           (fst p - fst q)\<^sup>2 + (snd p - snd q)\<^sup>2 < 0.1225 + 1 / 10 ^ 12"
proof -
  note e = float_squares_error [OF assms]
  have m: "0.1225 - 1 / 10 ^ 12 + 2178 / 2 ^ 53 < ((12610078956637387 / 2 ^ 55)\<^sup>2 :: real)"
    "((12610078956637387 / 2 ^ 55)\<^sup>2 :: real) + 2178 / 2 ^ 53 < 0.1225 + 1 / 10 ^ 12"
    by (simp_all add: power2_eq_square)
  show "float_dist p q < DISTANCE"
    if "(fst p - fst q)\<^sup>2 + (snd p - snd q)\<^sup>2 \<le> 0.1225 - 1 / 10 ^ 12"
    unfolding within_DISTANCE_iff using that e m(1) by linarith
  show "(fst p - fst q)\<^sup>2 + (snd p - snd q)\<^sup>2 < 0.1225 + 1 / 10 ^ 12"
    if "float_dist p q < DISTANCE"
    using that e m(2) unfolding within_DISTANCE_iff by linarith
qed

text \<open>The comparison, decided by the exact squares when they are not at the threshold.\<close>

lemma within_DISTANCE_closer:
  "\<bar>fst p\<bar> \<le> 8 \<Longrightarrow> \<bar>snd p\<bar> \<le> 8 \<Longrightarrow> \<bar>fst q\<bar> \<le> 8 \<Longrightarrow> \<bar>snd q\<bar> \<le> 8 \<Longrightarrow>
   (fst p - fst q)\<^sup>2 + (snd p - snd q)\<^sup>2 \<le> 0.1225 - 1 / 10 ^ 12 \<Longrightarrow>
   (float_dist p q < DISTANCE) = True"
  using within_DISTANCE_exact(1) [of p q] by simp

lemma within_DISTANCE_farther:
  "\<bar>fst p\<bar> \<le> 8 \<Longrightarrow> \<bar>snd p\<bar> \<le> 8 \<Longrightarrow> \<bar>fst q\<bar> \<le> 8 \<Longrightarrow> \<bar>snd q\<bar> \<le> 8 \<Longrightarrow>
   0.1225 + 1 / 10 ^ 12 \<le> (fst p - fst q)\<^sup>2 + (snd p - snd q)\<^sup>2 \<Longrightarrow>
   (float_dist p q < DISTANCE) = False"
  using within_DISTANCE_exact(2) [of p q] by fastforce

subsection \<open>Picking up\<close>

lemma first_in_range_Some:
  "its = pre @ (i, item) # post \<Longrightarrow> \<forall>(j, other) \<in> set pre. \<not> in_range robot other \<Longrightarrow>
   in_range robot item \<Longrightarrow> first_in_range robot its = Some i"
  by (induction pre arbitrary: its) (auto simp: in_range_def)

lemma first_in_range_None:
  "\<forall>(j, other) \<in> set its. \<not> in_range robot other \<Longrightarrow> first_in_range robot its = None"
  by (induction its) (auto simp: in_range_def)

text \<open>
  Away from the threshold the test in double precision is the exact one: an item whose
  Euclidean distance is at most \<open>0.35 - 2 / 10 ^ 12\<close> is in reach, and an item in reach
  has a Euclidean distance below \<open>0.35 + 2 / 10 ^ 12\<close>.
\<close>

lemma in_range_exact:
  assumes "\<bar>robot_x robot\<bar> \<le> 8" "\<bar>robot_y robot\<bar> \<le> 8" "\<bar>item_x item\<bar> \<le> 8" "\<bar>item_y item\<bar> \<le> 8"
  shows "math_dist (robot_x robot, robot_y robot) (item_x item, item_y item) \<le> 0.35 - 2 / 10 ^ 12 \<Longrightarrow>
           in_range robot item"
    and "in_range robot item \<Longrightarrow>
           math_dist (robot_x robot, robot_y robot) (item_x item, item_y item) < 0.35 + 2 / 10 ^ 12"
proof -
  let ?p = "(robot_x robot, robot_y robot)" and ?q = "(item_x item, item_y item)"
  have b: "\<bar>fst ?p\<bar> \<le> 8" "\<bar>snd ?p\<bar> \<le> 8" "\<bar>fst ?q\<bar> \<le> 8" "\<bar>snd ?q\<bar> \<le> 8"
    using assms by simp_all
  have lo: "(0.35 - 2 / 10 ^ 12)\<^sup>2 \<le> (0.1225 - 1 / 10 ^ 12 :: real)"
    and hi: "(0.1225 + 1 / 10 ^ 12 :: real) \<le> (0.35 + 2 / 10 ^ 12)\<^sup>2"
    by (simp_all add: power2_eq_square)
  show "in_range robot item" if "math_dist ?p ?q \<le> 0.35 - 2 / 10 ^ 12"
  proof -
    from that have "(fst ?p - fst ?q)\<^sup>2 + (snd ?p - snd ?q)\<^sup>2 \<le> (0.35 - 2 / 10 ^ 12)\<^sup>2"
      by (subst (asm) math_dist_le_iff) simp_all
    with lo have "(fst ?p - fst ?q)\<^sup>2 + (snd ?p - snd ?q)\<^sup>2 \<le> 0.1225 - 1 / 10 ^ 12"
      by linarith
    from within_DISTANCE_exact(1) [OF b this] show ?thesis by (simp add: in_range_def)
  qed
  show "math_dist ?p ?q < 0.35 + 2 / 10 ^ 12" if "in_range robot item"
  proof -
    from that have "float_dist ?p ?q < DISTANCE" by (simp add: in_range_def)
    from within_DISTANCE_exact(2) [OF b this] hi
    have "(fst ?p - fst ?q)\<^sup>2 + (snd ?p - snd ?q)\<^sup>2 < (0.35 + 2 / 10 ^ 12)\<^sup>2"
      by linarith
    then show ?thesis by (subst math_dist_less_iff) simp_all
  qed
qed

text \<open>
  Claim C7, as amended. \<^verbatim>\<open>pick_up_item\<close> fails for an unknown robot id, with a message
  naming the id, and for a robot that already holds an item. Otherwise the robot is given
  the first item of the item map that is in reach, that is, whose distance to the robot as
  \<^verbatim>\<open>math.dist\<close> computes it in double precision is less than the double 0.35, and the
  call succeeds; when no item is in reach the call fails with the message that the robot
  is unable to pick any item. Only the held item of that robot changes, and only on
  success. For coordinates of a magnitude of at most 8, an item at a Euclidean distance of
  at most \<open>0.35 - 2 / 10 ^ 12\<close> is in reach, and an item in reach is at a Euclidean
  distance below \<open>0.35 + 2 / 10 ^ 12\<close>.
\<close>

theorem pick_up_item_semantics:
  "(map_of (robots s) rid = None \<longrightarrow>
      pick_up_item s rid =
        (s, \<lparr>success = False, message = ''Unable to find robot_id '' @ quoted rid\<rparr>)) \<and>
   (map_of (robots s) rid = Some robot \<and> item_held robot \<noteq> None \<longrightarrow>
      pick_up_item s rid =
        (s, \<lparr>success = False,
             message = ''Robot '' @ quoted rid @ '' is already holding an item''\<rparr>)) \<and>
   (map_of (robots s) rid = Some robot \<and> item_held robot = None \<and>
    items s = pre @ (i, item) # post \<and> (\<forall>(j, other) \<in> set pre. \<not> in_range robot other) \<and>
    in_range robot item \<longrightarrow>
      pick_up_item s rid =
        (s\<lparr>robots := AList.update rid (robot\<lparr>item_held := Some i\<rparr>) (robots s)\<rparr>,
         \<lparr>success = True,
          message = ''Robot '' @ quoted rid @ '' collected item successfully''\<rparr>)) \<and>
   (map_of (robots s) rid = Some robot \<and> item_held robot = None \<and>
    (\<forall>(j, other) \<in> set (items s). \<not> in_range robot other) \<longrightarrow>
      pick_up_item s rid =
        (s, \<lparr>success = False,
             message = ''Robot '' @ quoted rid @ '' unable to pick any item.''\<rparr>)) \<and>
   (\<bar>robot_x robot\<bar> \<le> 8 \<and> \<bar>robot_y robot\<bar> \<le> 8 \<and> \<bar>item_x item\<bar> \<le> 8 \<and> \<bar>item_y item\<bar> \<le> 8 \<longrightarrow>
      (math_dist (robot_x robot, robot_y robot) (item_x item, item_y item) \<le> 0.35 - 2 / 10 ^ 12 \<longrightarrow>
         in_range robot item) \<and>
      (in_range robot item \<longrightarrow>
         math_dist (robot_x robot, robot_y robot) (item_x item, item_y item) < 0.35 + 2 / 10 ^ 12))"
proof (intro conjI impI)
  assume "map_of (robots s) rid = None"
  then show "pick_up_item s rid =
        (s, \<lparr>success = False, message = ''Unable to find robot_id '' @ quoted rid\<rparr>)"
    by (simp add: pick_up_item_def)
next
  assume "map_of (robots s) rid = Some robot \<and> item_held robot \<noteq> None"
  then show "pick_up_item s rid =
        (s, \<lparr>success = False,
             message = ''Robot '' @ quoted rid @ '' is already holding an item''\<rparr>)"
    by (auto simp: pick_up_item_def)
next
  assume a: "map_of (robots s) rid = Some robot \<and> item_held robot = None \<and>
    items s = pre @ (i, item) # post \<and> (\<forall>(j, other) \<in> set pre. \<not> in_range robot other) \<and>
    in_range robot item"
  then have "first_in_range robot (items s) = Some i"
    using first_in_range_Some by blast
  with a show "pick_up_item s rid =
        (s\<lparr>robots := AList.update rid (robot\<lparr>item_held := Some i\<rparr>) (robots s)\<rparr>,
         \<lparr>success = True,
          message = ''Robot '' @ quoted rid @ '' collected item successfully''\<rparr>)"
    by (simp add: pick_up_item_def)
next
  assume a: "map_of (robots s) rid = Some robot \<and> item_held robot = None \<and>
    (\<forall>(j, other) \<in> set (items s). \<not> in_range robot other)"
  then have "first_in_range robot (items s) = None"
    using first_in_range_None by blast
  with a show "pick_up_item s rid =
        (s, \<lparr>success = False,
             message = ''Robot '' @ quoted rid @ '' unable to pick any item.''\<rparr>)"
    by (simp add: pick_up_item_def)
next
  assume b: "\<bar>robot_x robot\<bar> \<le> 8 \<and> \<bar>robot_y robot\<bar> \<le> 8 \<and> \<bar>item_x item\<bar> \<le> 8 \<and> \<bar>item_y item\<bar> \<le> 8"
    and "math_dist (robot_x robot, robot_y robot) (item_x item, item_y item) \<le> 0.35 - 2 / 10 ^ 12"
  then show "in_range robot item" by (intro in_range_exact(1)) simp_all
next
  assume b: "\<bar>robot_x robot\<bar> \<le> 8 \<and> \<bar>robot_y robot\<bar> \<le> 8 \<and> \<bar>item_x item\<bar> \<le> 8 \<and> \<bar>item_y item\<bar> \<le> 8"
    and "in_range robot item"
  then show "math_dist (robot_x robot, robot_y robot) (item_x item, item_y item) < 0.35 + 2 / 10 ^ 12"
    by (intro in_range_exact(2)) simp_all
qed

text \<open>Reach, decided by the squares of the exact differences when they are not at the threshold.\<close>

lemma in_range_closer:
  assumes "\<bar>robot_x robot\<bar> \<le> 8" "\<bar>robot_y robot\<bar> \<le> 8" "\<bar>item_x item\<bar> \<le> 8" "\<bar>item_y item\<bar> \<le> 8"
    and "(robot_x robot - item_x item)\<^sup>2 + (robot_y robot - item_y item)\<^sup>2 \<le> 0.1225 - 1 / 10 ^ 12"
  shows "in_range robot item"
  unfolding in_range_def using assms by (intro within_DISTANCE_exact(1)) simp_all

lemma in_range_farther:
  assumes "\<bar>robot_x robot\<bar> \<le> 8" "\<bar>robot_y robot\<bar> \<le> 8" "\<bar>item_x item\<bar> \<le> 8" "\<bar>item_y item\<bar> \<le> 8"
    and "0.1225 + 1 / 10 ^ 12 \<le> (robot_x robot - item_x item)\<^sup>2 + (robot_y robot - item_y item)\<^sup>2"
  shows "\<not> in_range robot item"
proof
  assume "in_range robot item"
  then have "float_dist (robot_x robot, robot_y robot) (item_x item, item_y item) < DISTANCE"
    by (simp add: in_range_def)
  from within_DISTANCE_exact(2) [OF _ _ _ _ this] assms show False by simp
qed

text \<open>The roundings at two places of a robot next to an item at \<open>(- 2, - 2)\<close>.\<close>

lemma binary64_minus_two: "binary64 (- 2) = - 2"
  by (subst binary64_eval [of _ 51]) (simp_all add: round_half_even_def)

lemma float_diff_228: "float_diff (- 2.28) (- 2) = - 630503947831869 / 2 ^ 51"
proof -
  have "binary64 (- 2.28) = - 5134103575202365 / 2 ^ 51"
    by (subst binary64_eval [of _ 51]) (simp_all add: round_half_even_def)
  then have "binary64 (- 2.28) - binary64 (- 2) = - 630503947831869 / 2 ^ 51"
    by (simp add: binary64_minus_two)
  moreover have "binary64 (- 630503947831869 / 2 ^ 51) = - 630503947831869 / 2 ^ 51"
    by (subst binary64_eval [of _ 54]) (simp_all add: round_half_even_def)
  ultimately show ?thesis by (simp only: float_diff_def)
qed

lemma float_diff_221: "float_diff (- 2.21) (- 2) = - 236438980436951 / 2 ^ 50"
proof -
  have "binary64 (- 2.21) = - 4976477588244398 / 2 ^ 51"
    by (subst binary64_eval [of _ 51]) (simp_all add: round_half_even_def)
  then have "binary64 (- 2.21) - binary64 (- 2) = - 236438980436951 / 2 ^ 50"
    by (simp add: binary64_minus_two)
  moreover have "binary64 (- 236438980436951 / 2 ^ 50) = - 236438980436951 / 2 ^ 50"
    by (subst binary64_eval [of _ 55]) (simp_all add: round_half_even_def)
  ultimately show ?thesis by (simp only: float_diff_def)
qed

lemma float_diff_235: "float_diff (- 2.35) (- 2) = - 788129934789837 / 2 ^ 51"
proof -
  have "binary64 (- 2.35) = - 5291729562160333 / 2 ^ 51"
    by (subst binary64_eval [of _ 51]) (simp_all add: round_half_even_def)
  then have "binary64 (- 2.35) - binary64 (- 2) = - 788129934789837 / 2 ^ 51"
    by (simp add: binary64_minus_two)
  moreover have "binary64 (- 788129934789837 / 2 ^ 51) = - 788129934789837 / 2 ^ 51"
    by (subst binary64_eval [of _ 54]) (simp_all add: round_half_even_def)
  ultimately show ?thesis by (simp only: float_diff_def)
qed

lemma float_diff_same: "float_diff a a = 0"
  by (simp add: float_diff_def binary64_def)

lemma in_range_228_221:
  "in_range \<lparr>robot_x = - 2.28, robot_y = - 2.21, item_held = h, previous_item_held = p\<rparr>
            \<lparr>item_x = - 2, item_y = - 2, item_colour = c, cluster_id = k\<rparr>"
  unfolding in_range_def within_DISTANCE_iff
  by (simp only: Robot.simps Item.simps fst_conv snd_conv float_diff_228 float_diff_221)
     (simp add: power2_eq_square)

lemma not_in_range_235:
  "\<not> in_range \<lparr>robot_x = - 2.35, robot_y = - 2, item_held = h, previous_item_held = p\<rparr>
              \<lparr>item_x = - 2, item_y = - 2, item_colour = c, cluster_id = k\<rparr>"
  unfolding in_range_def within_DISTANCE_iff
  by (simp only: Robot.simps Item.simps fst_conv snd_conv float_diff_235 float_diff_same)
     (simp add: power2_eq_square)

theorem pick_up_item_semantics_witness:
  "pick_up_item (scenario (- 1.8) (- 2) None 0) ''ghost'' =
     (scenario (- 1.8) (- 2) None 0,
      \<lparr>success = False, message = ''Unable to find robot_id '' @ quoted ''ghost''\<rparr>) \<and>
   pick_up_item (scenario (- 1.8) (- 2) (Some ''item2'') 0) ''r1'' =
     (scenario (- 1.8) (- 2) (Some ''item2'') 0,
      \<lparr>success = False, message = ''Robot '' @ quoted ''r1'' @ '' is already holding an item''\<rparr>) \<and>
   pick_up_item (scenario (- 1.8) (- 2) None 0) ''r1'' =
     (scenario (- 1.8) (- 2) (Some ''item0'') 0,
      \<lparr>success = True, message = ''Robot '' @ quoted ''r1'' @ '' collected item successfully''\<rparr>) \<and>
   pick_up_item (scenario (- 1.58) (- 1.7) None 0) ''r1'' =
     (scenario (- 1.58) (- 1.7) (Some ''item1'') 0,
      \<lparr>success = True, message = ''Robot '' @ quoted ''r1'' @ '' collected item successfully''\<rparr>) \<and>
   pick_up_item (scenario (- 2.35) (- 2) None 0) ''r1'' =
     (scenario (- 2.35) (- 2) None 0,
      \<lparr>success = False, message = ''Robot '' @ quoted ''r1'' @ '' unable to pick any item.''\<rparr>) \<and>
   in_range \<lparr>robot_x = - 1.8, robot_y = - 2, item_held = None, previous_item_held = None\<rparr>
     \<lparr>item_x = - 2, item_y = - 2, item_colour = RED, cluster_id = ''cluster0''\<rparr> \<and>
   math_dist (- 1.8, - 2) (- 2, - 2) < 0.35 + 2 / 10 ^ 12"
proof -
  let ?i0 = "\<lparr>item_x = - 2, item_y = - 2, item_colour = RED, cluster_id = ''cluster0''\<rparr>"
  let ?i1 = "\<lparr>item_x = - 1.62, item_y = - 2, item_colour = RED, cluster_id = ''cluster0''\<rparr>"
  let ?i2 = "\<lparr>item_x = 0, item_y = 0, item_colour = GREEN, cluster_id = ''cluster1''\<rparr>"
  let ?r1 = "\<lparr>robot_x = - 1.8, robot_y = - 2, item_held = None, previous_item_held = None\<rparr>"
  let ?r2 = "\<lparr>robot_x = - 1.58, robot_y = - 1.7, item_held = None, previous_item_held = None\<rparr>"
  let ?r3 = "\<lparr>robot_x = - 2.35, robot_y = - 2, item_held = None, previous_item_held = None\<rparr>"
  have d: "math_dist (robot_x ?r1, robot_y ?r1) (item_x ?i0, item_y ?i0) \<le> 0.35 - 2 / 10 ^ 12"
    by (subst math_dist_le_iff) (simp_all add: power2_eq_square)
  have b: "\<bar>robot_x ?r1\<bar> \<le> 8 \<and> \<bar>robot_y ?r1\<bar> \<le> 8 \<and> \<bar>item_x ?i0\<bar> \<le> 8 \<and> \<bar>item_y ?i0\<bar> \<le> 8"
    by simp
  note bracket = pick_up_item_semantics [THEN conjunct2, THEN conjunct2, THEN conjunct2,
      THEN conjunct2, THEN mp, OF b]
  have a: "in_range ?r1 ?i0"
    by (rule bracket [THEN conjunct1, THEN mp, OF d])
  have m: "math_dist (- 1.8, - 2) (- 2, - 2) < 0.35 + 2 / 10 ^ 12"
    using bracket [THEN conjunct2, THEN mp, OF a] by simp
  have r2: "\<not> in_range ?r2 ?i0" by (rule in_range_farther) (simp_all add: power2_eq_square)
  have r2': "in_range ?r2 ?i1" by (rule in_range_closer) (simp_all add: power2_eq_square)
  have r3: "\<not> in_range ?r3 ?i0" by (rule not_in_range_235)
  have r3': "\<not> in_range ?r3 ?i1" by (rule in_range_farther) (simp_all add: power2_eq_square)
  have r3'': "\<not> in_range ?r3 ?i2" by (rule in_range_farther) (simp_all add: power2_eq_square)
  have 1: "pick_up_item (scenario (- 1.8) (- 2) None 0) ''ghost'' =
     (scenario (- 1.8) (- 2) None 0,
      \<lparr>success = False, message = ''Unable to find robot_id '' @ quoted ''ghost''\<rparr>)"
    using pick_up_item_semantics [of "scenario (- 1.8) (- 2) None 0" "''ghost''"]
    by (simp add: scenario_def)
  have 2: "pick_up_item (scenario (- 1.8) (- 2) (Some ''item2'') 0) ''r1'' =
     (scenario (- 1.8) (- 2) (Some ''item2'') 0,
      \<lparr>success = False, message = ''Robot '' @ quoted ''r1'' @ '' is already holding an item''\<rparr>)"
    using pick_up_item_semantics [of "scenario (- 1.8) (- 2) (Some ''item2'') 0" "''r1''"
      "\<lparr>robot_x = - 1.8, robot_y = - 2, item_held = Some ''item2'', previous_item_held = None\<rparr>"]
    by (simp add: scenario_def)
  have 3: "pick_up_item (scenario (- 1.8) (- 2) None 0) ''r1'' =
     (scenario (- 1.8) (- 2) (Some ''item0'') 0,
      \<lparr>success = True, message = ''Robot '' @ quoted ''r1'' @ '' collected item successfully''\<rparr>)"
    using pick_up_item_semantics [of "scenario (- 1.8) (- 2) None 0" "''r1''" ?r1
      "[]" "''item0''" ?i0 "[(''item1'', ?i1), (''item2'', ?i2)]"] a
    by (simp add: scenario_def)
  have 4: "pick_up_item (scenario (- 1.58) (- 1.7) None 0) ''r1'' =
     (scenario (- 1.58) (- 1.7) (Some ''item1'') 0,
      \<lparr>success = True, message = ''Robot '' @ quoted ''r1'' @ '' collected item successfully''\<rparr>)"
    using pick_up_item_semantics [of "scenario (- 1.58) (- 1.7) None 0" "''r1''" ?r2
      "[(''item0'', ?i0)]" "''item1''" ?i1 "[(''item2'', ?i2)]"] r2 r2'
    by (simp add: scenario_def)
  have 5: "pick_up_item (scenario (- 2.35) (- 2) None 0) ''r1'' =
     (scenario (- 2.35) (- 2) None 0,
      \<lparr>success = False, message = ''Robot '' @ quoted ''r1'' @ '' unable to pick any item.''\<rparr>)"
    using pick_up_item_semantics [of "scenario (- 2.35) (- 2) None 0" "''r1''" ?r3] r3 r3' r3''
    by (simp add: scenario_def)
  from 1 2 3 4 5 a m show ?thesis by blast
qed

text \<open>
  The claim as stated fails: a robot at \<open>(- 2.28, - 2.21)\<close> is at the Euclidean distance
  0.35 from the item at \<open>(- 2, - 2)\<close>, which is not less than 0.35, and the request
  gives the item to the robot.
\<close>

theorem pick_up_item_semantics_counterexample:
  "math_dist (- 2.28, - 2.21) (- 2, - 2) = 0.35 \<and>
   \<not> math_dist (- 2.28, - 2.21) (- 2, - 2) < 0.35 \<and>
   pick_up_item (scenario (- 2.28) (- 2.21) None 0) ''r1'' =
     (scenario (- 2.28) (- 2.21) (Some ''item0'') 0,
      \<lparr>success = True, message = ''Robot '' @ quoted ''r1'' @ '' collected item successfully''\<rparr>)"
proof -
  have "(0.35 :: real)\<^sup>2 = (- 2.28 - (- 2))\<^sup>2 + (- 2.21 - (- 2))\<^sup>2"
    by (simp add: power2_eq_square)
  then have "sqrt ((- 2.28 - (- 2))\<^sup>2 + (- 2.21 - (- 2))\<^sup>2) = (0.35 :: real)"
    by (intro real_sqrt_unique) simp_all
  then have e: "math_dist (- 2.28, - 2.21) (- 2, - 2) = 0.35"
    by (simp only: math_dist_def fst_conv snd_conv)
  have "first_in_range
          \<lparr>robot_x = - 2.28, robot_y = - 2.21, item_held = None, previous_item_held = None\<rparr>
          (items (scenario (- 2.28) (- 2.21) None 0)) = Some ''item0''"
    by (rule first_in_range_Some [where pre = "[]", OF _ _ in_range_228_221])
       (simp_all add: scenario_def)
  then have "pick_up_item (scenario (- 2.28) (- 2.21) None 0) ''r1'' =
     (scenario (- 2.28) (- 2.21) (Some ''item0'') 0,
      \<lparr>success = True, message = ''Robot '' @ quoted ''r1'' @ '' collected item successfully''\<rparr>)"
    by (simp add: pick_up_item_def scenario_def)
  with e show ?thesis by simp
qed

subsection \<open>Evaluating the samplers\<close>

lemma item_clash_iff:
  "item_clash cid item x y \<longleftrightarrow>
     cluster_id item = cid \<and> (item_x item - x)\<^sup>2 + (item_y item - y)\<^sup>2 < 0.09"
  unfolding item_clash_def by (subst math_dist_less_iff) (simp_all add: power2_eq_square)

lemma cluster_clash_iff:
  "cluster_clash cluster x y \<longleftrightarrow>
     (cluster_x cluster - x)\<^sup>2 + (cluster_y cluster - y)\<^sup>2 \<le> 1"
proof -
  have "math_dist (real_of_int (cluster_x cluster), real_of_int (cluster_y cluster))
          (real_of_int x, real_of_int y) \<le> 1.0 \<longleftrightarrow>
        real_of_int ((cluster_x cluster - x)\<^sup>2 + (cluster_y cluster - y)\<^sup>2) \<le> real_of_int 1"
    by (subst math_dist_le_iff) simp_all
  then have "math_dist (real_of_int (cluster_x cluster), real_of_int (cluster_y cluster))
          (real_of_int x, real_of_int y) \<le> 1.0 \<longleftrightarrow>
        (cluster_x cluster - x)\<^sup>2 + (cluster_y cluster - y)\<^sup>2 \<le> 1"
    by (simp only: of_int_le_iff)
  moreover have "cluster_x cluster = x \<and> cluster_y cluster = y \<Longrightarrow>
        (cluster_x cluster - x)\<^sup>2 + (cluster_y cluster - y)\<^sup>2 \<le> 1"
    by simp
  ultimately show ?thesis unfolding cluster_clash_def by blast
qed

lemmas sample_simps =
  choice_def randint_def uniform_def random_unit_def radians_def round2_def round_half_even_def
  cluster_candidate_def item_offset_def obstacle_def cluster_clash_iff item_clash_iff
  colour_count_def Let_def power2_eq_square

subsection \<open>Offloading\<close>



lemma allowed_drop_no_zone: "allowed_drop_in_zone s robot None = Inr False"
  by (simp add: allowed_drop_in_zone_def)

lemma offload_item_arena:
  assumes "map_of (robots s) rid = Some robot"
    and "item_held robot = Some held"
    and "allowed_drop_in_zone s robot (get_robot_zone (zones s) robot) = Inr False"
  shows "offload_item s rid =
           Some (Inr (s\<lparr>robots := AList.update rid (robot\<lparr>item_held := None\<rparr>) (robots s)\<rparr>,
                      \<lparr>success = True,
                       message = ''Item '' @ quoted held @ '' held by robot '' @ quoted rid @
                                 '' has been offloaded in the arena.''\<rparr>,
                      [SetEntityState held rid 0 0 0]))"
  using assms by (simp add: offload_item_def Let_def)

lemma offload_item_deposit:
  assumes "map_of (robots s) rid = Some robot"
    and "item_held robot = Some held"
    and "map_of (items s) held = Some item"
    and "get_robot_zone (zones s) robot = Some (l, z)"
    and "allowed_drop_in_zone s robot (Some (l, z)) = Inr True"
    and "map_of (items_returned z) (item_colour item) = Some n"
    and "generate_item_position (clusters s) (items s) (cluster_id item) (rng s) = Some (Inr ((x, y), g))"
  shows "offload_item s rid =
           Some (Inr (deposit_state s rid robot held item l z n x y g,
                      \<lparr>success = True,
                       message = ''Item '' @ quoted ''None'' @ '' held by robot '' @ quoted rid @
                                 '' has been offloaded at zone '' @
                                 quoted (str_location (zone_location z)) @ ''.''\<rparr>,
                      [SetEntityState held ''world'' x y 0]))"
  using assms by (simp add: offload_item_def deposit_state_def Let_def)


text \<open>The scenarios, evaluated.\<close>

lemma scenario_robot:
  "map_of (robots (scenario x y held reds)) ''r1'' =
     Some \<lparr>robot_x = x, robot_y = y, item_held = held, previous_item_held = None\<rparr>"
  by (simp add: scenario_def)

lemma scenario_zone_top_left:
  "get_robot_zone (zones (scenario 2.5 2.5 held reds))
     \<lparr>robot_x = 2.5, robot_y = 2.5, item_held = held, previous_item_held = None\<rparr> =
   Some (TOP_LEFT, \<lparr>zone_location = TOP_LEFT, zone_x = 2.57, zone_y = 2.5,
                     items_returned = [(RED, reds), (GREEN, 0), (BLUE, 0)]\<rparr>)"
  by (simp add: scenario_def ZONE_SIZE_def)

lemma scenario_zone_none:
  "get_robot_zone (zones (scenario 0 0 held reds))
     \<lparr>robot_x = 0, robot_y = 0, item_held = held, previous_item_held = None\<rparr> = None"
  by (simp add: scenario_def ZONE_SIZE_def new_zone_def)

lemma scenario_relocation:
  "generate_item_position (clusters (scenario x y held reds)) (items (scenario x y held reds))
     ''cluster0'' (rng (scenario x y held reds)) = Some (Inr ((- 2.38, - 2), sconst 0))"
  by (subst generate_item_position.simps) (simp add: scenario_def sample_simps)

text \<open>
  Claim C10. When a known robot that holds an item is in no zone, or in a zone that
  rejects the item, \<^verbatim>\<open>offload_item\<close> sends one pose-set for the item in the frame of
  the robot and changes nothing in the state but the held item of that robot, which it
  clears: the item map (coordinates, colours, clusters), the zones with their counters,
  the clusters and every other robot are as before.
\<close>

theorem offload_item_arena_frame:
  assumes "map_of (robots s) rid = Some robot"
    and "item_held robot = Some held"
    and "get_robot_zone (zones s) robot = None \<or>
         allowed_drop_in_zone s robot (get_robot_zone (zones s) robot) = Inr False"
  shows "\<exists>s' resp.
           offload_item s rid = Some (Inr (s', resp, [SetEntityState held rid 0 0 0])) \<and>
           s' = s\<lparr>robots := robots s'\<rparr> \<and>
           items s' = items s \<and> zones s' = zones s \<and> clusters s' = clusters s \<and>
           map_of (robots s') rid = Some (robot\<lparr>item_held := None\<rparr>) \<and>
           (\<forall>other. other \<noteq> rid \<longrightarrow> map_of (robots s') other = map_of (robots s) other)"
proof -
  from assms(3) have "allowed_drop_in_zone s robot (get_robot_zone (zones s) robot) = Inr False"
    by (auto simp: allowed_drop_no_zone)
  from offload_item_arena [OF assms(1,2) this] show ?thesis
    by (simp add: update_conv')
qed

theorem offload_item_arena_frame_witness:
  "offload_item (scenario 2.5 2.5 (Some ''item2'') 1) ''r1'' =
     Some (Inr (scenario 2.5 2.5 None 1,
                \<lparr>success = True,
                 message = ''Item '' @ quoted ''item2'' @ '' held by robot '' @ quoted ''r1'' @
                           '' has been offloaded in the arena.''\<rparr>,
                [SetEntityState ''item2'' ''r1'' 0 0 0])) \<and>
   (\<exists>s' resp. offload_item (scenario 0 0 (Some ''item0'') 0) ''r1'' =
        Some (Inr (s', resp, [SetEntityState ''item0'' ''r1'' 0 0 0])) \<and>
      items s' = items (scenario 0 0 (Some ''item0'') 0) \<and>
      zones s' = zones (scenario 0 0 (Some ''item0'') 0))"
proof -
  have a: "allowed_drop_in_zone (scenario 2.5 2.5 (Some ''item2'') 1)
             \<lparr>robot_x = 2.5, robot_y = 2.5, item_held = Some ''item2'', previous_item_held = None\<rparr>
             (get_robot_zone (zones (scenario 2.5 2.5 (Some ''item2'') 1))
               \<lparr>robot_x = 2.5, robot_y = 2.5, item_held = Some ''item2'', previous_item_held = None\<rparr>)
           = Inr False"
    by (simp only: scenario_zone_top_left)
       (simp add: allowed_drop_in_zone_def held_item_def scenario_def)
  have "\<exists>s' resp.
           offload_item (scenario 2.5 2.5 (Some ''item2'') 1) ''r1'' =
             Some (Inr (s', resp, [SetEntityState ''item2'' ''r1'' 0 0 0])) \<and>
           s' = scenario 2.5 2.5 (Some ''item2'') 1\<lparr>robots := robots s'\<rparr> \<and>
           items s' = items (scenario 2.5 2.5 (Some ''item2'') 1) \<and>
           zones s' = zones (scenario 2.5 2.5 (Some ''item2'') 1) \<and>
           clusters s' = clusters (scenario 2.5 2.5 (Some ''item2'') 1) \<and>
           map_of (robots s') ''r1'' =
             Some (\<lparr>robot_x = 2.5, robot_y = 2.5, item_held = Some ''item2'',
                     previous_item_held = None\<rparr>\<lparr>item_held := None\<rparr>) \<and>
           (\<forall>other. other \<noteq> ''r1'' \<longrightarrow>
              map_of (robots s') other = map_of (robots (scenario 2.5 2.5 (Some ''item2'') 1)) other)"
    by (rule offload_item_arena_frame [OF scenario_robot _ disjI2 [OF a]]) simp
  moreover have "offload_item (scenario 2.5 2.5 (Some ''item2'') 1) ''r1'' =
     Some (Inr (scenario 2.5 2.5 None 1,
                \<lparr>success = True,
                 message = ''Item '' @ quoted ''item2'' @ '' held by robot '' @ quoted ''r1'' @
                           '' has been offloaded in the arena.''\<rparr>,
                [SetEntityState ''item2'' ''r1'' 0 0 0]))"
    using offload_item_arena [OF scenario_robot _ a] by (simp add: scenario_def)
  moreover have "\<exists>s' resp.
           offload_item (scenario 0 0 (Some ''item0'') 0) ''r1'' =
             Some (Inr (s', resp, [SetEntityState ''item0'' ''r1'' 0 0 0])) \<and>
           s' = scenario 0 0 (Some ''item0'') 0\<lparr>robots := robots s'\<rparr> \<and>
           items s' = items (scenario 0 0 (Some ''item0'') 0) \<and>
           zones s' = zones (scenario 0 0 (Some ''item0'') 0) \<and>
           clusters s' = clusters (scenario 0 0 (Some ''item0'') 0) \<and>
           map_of (robots s') ''r1'' =
             Some (\<lparr>robot_x = 0, robot_y = 0, item_held = Some ''item0'',
                     previous_item_held = None\<rparr>\<lparr>item_held := None\<rparr>) \<and>
           (\<forall>other. other \<noteq> ''r1'' \<longrightarrow>
              map_of (robots s') other = map_of (robots (scenario 0 0 (Some ''item0'') 0)) other)"
    by (rule offload_item_arena_frame [OF scenario_robot _ disjI1 [OF scenario_zone_none]]) simp
  ultimately show ?thesis by blast
qed


subsection \<open>The placement generators\<close>

lemma generate_cluster_location_accepts:
  "generate_cluster_location cs colour g = Some r \<Longrightarrow>
   \<not> obstacle (fst (fst r)) (snd (fst r)) \<and>
   \<not> list_ex (\<lambda>(_, cluster). cluster_clash cluster (fst (fst r)) (snd (fst r))) cs"
proof (induction rule: generate_cluster_location.raw_induct [rotated 1, consumes 1])
  case (1 rec cs colour g r)
  obtain x y g2 where c: "cluster_candidate colour g = ((x, y), g2)"
    by (metis prod.exhaust)
  from 1(2) have body:
    "(if obstacle x y then rec cs colour g2
      else if list_ex (\<lambda>(_, cluster). cluster_clash cluster x y) cs
           then rec cs colour g2 else Some ((x, y), g2)) = Some r"
    by (simp add: c)
  show ?case
  proof (cases "obstacle x y \<or> list_ex (\<lambda>(_, cluster). cluster_clash cluster x y) cs")
    case True
    with body have "rec cs colour g2 = Some r" by (simp split: if_splits)
    then show ?thesis by (rule 1(1))
  next
    case False
    with body have "r = ((x, y), g2)" by (simp split: if_splits)
    with False show ?thesis by simp
  qed
qed

lemma generate_item_position_accepts:
  "generate_item_position cs its cid g = Some res \<Longrightarrow>
   (case res of
      Inl e \<Rightarrow> True
    | Inr (p, g') \<Rightarrow> \<not> list_ex (\<lambda>(_, item). item_clash cid item (fst p) (snd p)) its)"
proof (induction rule: generate_item_position.raw_induct [rotated 1, consumes 1])
  case (1 rec cs its cid g res)
  obtain dx dy g2 where o: "item_offset g = ((dx, dy), g2)"
    by (metis prod.exhaust)
  show ?case
  proof (cases "map_of cs cid")
    case None
    with 1(2) o show ?thesis by auto
  next
    case (Some cluster)
    define x where "x = real_of_int (cluster_x cluster) + dx"
    define y where "y = real_of_int (cluster_y cluster) + dy"
    show ?thesis
    proof (cases "list_ex (\<lambda>(_, item). item_clash cid item x y) its")
      case True
      with 1(2) o Some have "rec cs its cid g2 = Some res" by (simp add: x_def y_def)
      then show ?thesis by (rule 1(1))
    next
      case False
      with 1(2) o Some have "res = Inr ((x, y), g2)" by (simp add: x_def y_def)
      with False show ?thesis by simp
    qed
  qed
qed

text \<open>Both generators return at once when the first candidate is accepted.\<close>

lemma generate_cluster_location_first:
  "cluster_candidate colour g = ((x, y), g2) \<Longrightarrow> \<not> obstacle x y \<Longrightarrow>
   \<not> list_ex (\<lambda>(_, cluster). cluster_clash cluster x y) cs \<Longrightarrow>
   generate_cluster_location cs colour g = Some ((x, y), g2)"
  by (subst generate_cluster_location.simps) simp

lemma generate_cluster_location_retry:
  "cluster_candidate colour g = ((x, y), g2) \<Longrightarrow>
   obstacle x y \<or> list_ex (\<lambda>(_, cluster). cluster_clash cluster x y) cs \<Longrightarrow>
   generate_cluster_location cs colour g = generate_cluster_location cs colour g2"
  by (subst generate_cluster_location.simps) auto


lemma generate_item_position_retry:
  "item_offset g = ((dx, dy), g2) \<Longrightarrow> map_of cs cid = Some cluster \<Longrightarrow>
   list_ex (\<lambda>(_, item). item_clash cid item
       (real_of_int (cluster_x cluster) + dx) (real_of_int (cluster_y cluster) + dy)) its \<Longrightarrow>
   generate_item_position cs its cid g = generate_item_position cs its cid g2"
  by (subst generate_item_position.simps) simp

text \<open>
  Claim C8. A coordinate returned by \<^verbatim>\<open>generate_cluster_location\<close> is none of the four
  obstacle cells, is the centre of no existing cluster, and is farther than 1.0 from the
  centre of every existing cluster. A coordinate returned by
  \<^verbatim>\<open>generate_item_position\<close> for a cluster is at distance at least 0.3 from every
  existing item of that cluster.
\<close>

theorem placement_separation:
  "(generate_cluster_location cs colour g = Some ((x, y), g') \<longrightarrow>
      (x, y) \<notin> {(1, 1), (1, - 1), (- 1, 1), (- 1, - 1)} \<and>
      (\<forall>(k, cluster) \<in> set cs.
         (cluster_x cluster, cluster_y cluster) \<noteq> (x, y) \<and>
         1.0 < math_dist (real_of_int (cluster_x cluster), real_of_int (cluster_y cluster))
                         (real_of_int x, real_of_int y))) \<and>
   (generate_item_position cs its cid h = Some (Inr ((u, v), h')) \<longrightarrow>
      (\<forall>(i, item) \<in> set its.
         cluster_id item = cid \<longrightarrow> 0.3 \<le> math_dist (item_x item, item_y item) (u, v)))"
proof -
  have a: "(x, y) \<notin> {(1, 1), (1, - 1), (- 1, 1), (- 1, - 1)} \<and>
      (\<forall>(k, cluster) \<in> set cs.
         (cluster_x cluster, cluster_y cluster) \<noteq> (x, y) \<and>
         1.0 < math_dist (real_of_int (cluster_x cluster), real_of_int (cluster_y cluster))
                         (real_of_int x, real_of_int y))"
    if "generate_cluster_location cs colour g = Some ((x, y), g')"
    using generate_cluster_location_accepts [OF that]
    by (auto simp: obstacle_def cluster_clash_def list_ex_iff)
  have b: "\<forall>(i, item) \<in> set its.
         cluster_id item = cid \<longrightarrow> 0.3 \<le> math_dist (item_x item, item_y item) (u, v)"
    if "generate_item_position cs its cid h = Some (Inr ((u, v), h'))"
    using generate_item_position_accepts [OF that]
    by (auto simp: item_clash_def list_ex_iff)
  from a b show ?thesis by blast
qed


lemma scenario_cluster_location:
  "generate_cluster_location (clusters (scenario 0 0 None 0)) RED (0 ## 0 ## 2 ## 0 ## sconst 0) =
     Some ((- 2, 0), sconst 0)"
proof -
  have "generate_cluster_location (clusters (scenario 0 0 None 0)) RED (0 ## 0 ## 2 ## 0 ## sconst 0) =
        generate_cluster_location (clusters (scenario 0 0 None 0)) RED (2 ## 0 ## sconst 0)"
    by (rule generate_cluster_location_retry [where x = "- 2" and y = "- 2"])
       (simp_all add: scenario_def sample_simps)
  also have "\<dots> = Some ((- 2, 0), sconst 0)"
    by (rule generate_cluster_location_first) (simp_all add: scenario_def sample_simps)
  finally show ?thesis .
qed

lemma scenario_item_position:
  "generate_item_position (clusters (scenario 0 0 None 0)) (items (scenario 0 0 None 0)) ''cluster0''
     (0 ## 0 ## 6755399441055744 ## 4503599627370496 ## sconst 0) =
   Some (Inr ((- 2.38, - 2), sconst 0))"
proof -
  have "generate_item_position (clusters (scenario 0 0 None 0)) (items (scenario 0 0 None 0))
          ''cluster0'' (0 ## 0 ## 6755399441055744 ## 4503599627370496 ## sconst 0) =
        generate_item_position (clusters (scenario 0 0 None 0)) (items (scenario 0 0 None 0))
          ''cluster0'' (6755399441055744 ## 4503599627370496 ## sconst 0)"
    by (rule generate_item_position_retry [where dx = 0 and dy = 0 and
          cluster = "\<lparr>cluster_x = - 2, cluster_y = - 2, cluster_colour = RED\<rparr>"])
       (simp_all add: scenario_def sample_simps)
  also have "\<dots> = Some (Inr ((- 2.38, - 2), sconst 0))"
    by (subst generate_item_position.simps) (simp add: scenario_def sample_simps)
  finally show ?thesis .
qed

theorem placement_separation_witness:
  "generate_cluster_location (clusters (scenario 0 0 None 0)) RED (0 ## 0 ## 2 ## 0 ## sconst 0) =
     Some ((- 2, 0), sconst 0) \<and>
   (- 2, 0) \<notin> {(1, 1), (1, - 1), (- 1, 1), (- 1, - 1 :: int)} \<and>
   1.0 < math_dist (real_of_int (- 2), real_of_int (- 2)) (real_of_int (- 2), real_of_int 0) \<and>
   1.0 < math_dist (real_of_int 0, real_of_int 0) (real_of_int (- 2), real_of_int 0) \<and>
   generate_item_position (clusters (scenario 0 0 None 0)) (items (scenario 0 0 None 0)) ''cluster0''
     (0 ## 0 ## 6755399441055744 ## 4503599627370496 ## sconst 0) =
     Some (Inr ((- 2.38, - 2), sconst 0)) \<and>
   0.3 \<le> math_dist (- 2, - 2) (- 2.38, - 2) \<and>
   0.3 \<le> math_dist (- 1.62, - 2) (- 2.38, - 2)"
  using scenario_cluster_location scenario_item_position
    placement_separation [THEN conjunct1, THEN mp, OF scenario_cluster_location]
    placement_separation [THEN conjunct2, THEN mp, OF scenario_item_position]
  by (simp add: scenario_def)

subsection \<open>Deposits\<close>















lemma scenario_accepts_red:
  "allowed_drop_in_zone (scenario 2.5 2.5 (Some ''item0'') reds)
     \<lparr>robot_x = 2.5, robot_y = 2.5, item_held = Some ''item0'', previous_item_held = None\<rparr>
     (Some (TOP_LEFT, \<lparr>zone_location = TOP_LEFT, zone_x = 2.57, zone_y = 2.5,
                       items_returned = [(RED, reds), (GREEN, 0), (BLUE, 0)]\<rparr>)) = Inr True"
  by (simp add: allowed_drop_in_zone_def held_item_def scenario_def)

lemma scenario_item0:
  "map_of (items (scenario x y held reds)) ''item0'' =
     Some \<lparr>item_x = - 2, item_y = - 2, item_colour = RED, cluster_id = ''cluster0''\<rparr>"
  by (simp add: scenario_def)

lemma scenario_deposit:
  "offload_item (scenario 2.5 2.5 (Some ''item0'') reds) ''r1'' =
     Some (Inr (deposit_state (scenario 2.5 2.5 (Some ''item0'') reds) ''r1''
                  \<lparr>robot_x = 2.5, robot_y = 2.5, item_held = Some ''item0'',
                    previous_item_held = None\<rparr>
                  ''item0''
                  \<lparr>item_x = - 2, item_y = - 2, item_colour = RED, cluster_id = ''cluster0''\<rparr>
                  TOP_LEFT
                  \<lparr>zone_location = TOP_LEFT, zone_x = 2.57, zone_y = 2.5,
                    items_returned = [(RED, reds), (GREEN, 0), (BLUE, 0)]\<rparr>
                  reds (- 2.38) (- 2) (sconst 0),
                \<lparr>success = True,
                 message = ''Item '' @ quoted ''None'' @ '' held by robot '' @ quoted ''r1'' @
                           '' has been offloaded at zone '' @
                           quoted ''ZoneLocation.TOP_LEFT'' @ ''.''\<rparr>,
                [SetEntityState ''item0'' ''world'' (- 2.38) (- 2) 0]))"
proof -
  have g: "generate_item_position (clusters (scenario 2.5 2.5 (Some ''item0'') reds))
            (items (scenario 2.5 2.5 (Some ''item0'') reds))
            (cluster_id \<lparr>item_x = - 2, item_y = - 2, item_colour = RED, cluster_id = ''cluster0''\<rparr>)
            (rng (scenario 2.5 2.5 (Some ''item0'') reds)) = Some (Inr ((- 2.38, - 2), sconst 0))"
    using scenario_relocation [of "2.5" "2.5" "Some ''item0''" reds] by simp
  have c: "map_of (items_returned \<lparr>zone_location = TOP_LEFT, zone_x = 2.57, zone_y = 2.5,
                    items_returned = [(RED, reds), (GREEN, 0), (BLUE, 0)]\<rparr>)
             (item_colour \<lparr>item_x = - 2, item_y = - 2, item_colour = RED, cluster_id = ''cluster0''\<rparr>)
           = Some reds"
    by simp
  from offload_item_deposit [OF scenario_robot _ scenario_item0 scenario_zone_top_left
      scenario_accepts_red c g]
  show ?thesis by simp
qed

lemma scenario_red_count:
  "map_of (items_returned \<lparr>zone_location = TOP_LEFT, zone_x = 2.57, zone_y = 2.5,
                            items_returned = [(RED, reds), (GREEN, 0), (BLUE, 0)]\<rparr>)
     (item_colour \<lparr>item_x = - 2, item_y = - 2, item_colour = RED, cluster_id = ''cluster0''\<rparr>)
   = Some reds"
  by simp
















lemma scenario_no_zone_rejects:
  "allowed_drop_in_zone (scenario 0 0 held reds)
     \<lparr>robot_x = 0, robot_y = 0, item_held = held, previous_item_held = None\<rparr>
     (get_robot_zone (zones (scenario 0 0 held reds))
       \<lparr>robot_x = 0, robot_y = 0, item_held = held, previous_item_held = None\<rparr>) = Inr False"
  by (simp only: scenario_zone_none allowed_drop_no_zone)

text \<open>
  Claim C4. On a zone deposit the handler clears the held item of the robot and only then
  composes the message from that field, so the message shows the text \<^verbatim>\<open>None\<close> in the
  place of the item. The branch that drops the item in the arena composes its message
  before it clears the field and names the item. Evaluated in Scenario B of the
  specification, and for the same robot and item outside every zone:
\<close>

theorem offload_item_deposit_message_defect:
  "offload_message (scenario 2.5 2.5 (Some ''item0'') 0) ''r1'' =
     Some (''Item '' @ quoted ''None'' @ '' held by robot '' @ quoted ''r1'' @
           '' has been offloaded at zone '' @ quoted ''ZoneLocation.TOP_LEFT'' @ ''.'') \<and>
   offload_message (scenario 2.5 2.5 (Some ''item0'') 0) ''r1'' \<noteq>
     Some (''Item '' @ quoted [] @ '' held by robot '' @ quoted ''r1'' @
           '' has been offloaded at zone '' @ quoted ''ZoneLocation.TOP_LEFT'' @ ''.'') \<and>
   offload_message (scenario 2.5 2.5 (Some ''item0'') 0) ''r1'' \<noteq>
     Some (''Item '' @ quoted ''item0'' @ '' held by robot '' @ quoted ''r1'' @
           '' has been offloaded at zone '' @ quoted ''ZoneLocation.TOP_LEFT'' @ ''.'') \<and>
   offload_message (scenario 0 0 (Some ''item0'') 0) ''r1'' =
     Some (''Item '' @ quoted ''item0'' @ '' held by robot '' @ quoted ''r1'' @
           '' has been offloaded in the arena.'')"
proof -
  have "offload_message (scenario 0 0 (Some ''item0'') 0) ''r1'' =
     Some (''Item '' @ quoted ''item0'' @ '' held by robot '' @ quoted ''r1'' @
           '' has been offloaded in the arena.'')"
    unfolding offload_message_def
    using offload_item_arena [OF scenario_robot _ scenario_no_zone_rejects] by simp
  then show ?thesis
    unfolding offload_message_def scenario_deposit by (simp add: quoted_def)
qed





subsection \<open>Association lists\<close>

lemma list_all_update:
  "list_all P al \<Longrightarrow> P (k, v) \<Longrightarrow> list_all P (AList.update k v al)"
  by (induction al) auto

lemma map_of_update_neq_None:
  "map_of al k \<noteq> None \<Longrightarrow> map_of (AList.update j v al) k \<noteq> None"
  by (simp add: update_conv')

lemma map_of_mem_distinct:
  "distinct (map fst al) \<Longrightarrow> (k, v) \<in> set al \<Longrightarrow> map_of al k = Some v"
  by simp

lemma first_in_range_mem:
  "first_in_range robot its = Some i \<Longrightarrow> map_of its i \<noteq> None"
  by (induction its) (auto split: if_splits)

lemma get_robot_zone_mem:
  "get_robot_zone zs robot = Some (l, z) \<Longrightarrow> (l, z) \<in> set zs"
  by (induction zs) (auto split: if_splits)

subsection \<open>Counters\<close>

lemma counters_ok_iff:
  "counters_ok cnt \<longleftrightarrow>
     (\<exists>r g b. cnt = [(RED, r), (GREEN, g), (BLUE, b)] \<and> 0 \<le> r \<and> 0 \<le> g \<and> 0 \<le> b \<and>
        ((g = 0 \<and> b = 0) \<or> (r = 0 \<and> b = 0) \<or> (r = 0 \<and> g = 0)))"
proof
  assume a: "counters_ok cnt"
  then have "map fst cnt = [RED, GREEN, BLUE]" by (simp add: counters_ok_def)
  then obtain r g b where c: "cnt = [(RED, r), (GREEN, g), (BLUE, b)]"
    by (auto simp: map_eq_Cons_conv)
  with a show "\<exists>r g b. cnt = [(RED, r), (GREEN, g), (BLUE, b)] \<and> 0 \<le> r \<and> 0 \<le> g \<and> 0 \<le> b \<and>
        ((g = 0 \<and> b = 0) \<or> (r = 0 \<and> b = 0) \<or> (r = 0 \<and> g = 0))"
    by (auto simp: counters_ok_def split: if_splits)
next
  assume "\<exists>r g b. cnt = [(RED, r), (GREEN, g), (BLUE, b)] \<and> 0 \<le> r \<and> 0 \<le> g \<and> 0 \<le> b \<and>
        ((g = 0 \<and> b = 0) \<or> (r = 0 \<and> b = 0) \<or> (r = 0 \<and> g = 0))"
  then show "counters_ok cnt" by (auto simp: counters_ok_def)
qed

lemma counters_ok_fresh: "counters_ok [(RED, 0), (GREEN, 0), (BLUE, 0)]"
  by (simp add: counters_ok_def)

text \<open>The colour the zone is committed to, read off well-shaped counters.\<close>

lemma match_colour_None_iff:
  "counters_ok cnt \<Longrightarrow> match_colour cnt = None \<longleftrightarrow> (\<forall>c. map_of cnt c = Some 0)"
proof -
  assume "counters_ok cnt"
  then obtain r g b where "cnt = [(RED, r), (GREEN, g), (BLUE, b)]" "0 \<le> r" "0 \<le> g" "0 \<le> b"
    by (auto simp: counters_ok_iff)
  then show ?thesis
    by (auto simp: all_conj_distrib) (metis Colour.exhaust)+
qed

lemma match_colour_Some_iff:
  "counters_ok cnt \<Longrightarrow> match_colour cnt = Some c \<longleftrightarrow> (\<exists>n. map_of cnt c = Some n \<and> n \<noteq> 0)"
proof -
  assume "counters_ok cnt"
  then obtain r g b where "cnt = [(RED, r), (GREEN, g), (BLUE, b)]" "0 \<le> r" "0 \<le> g" "0 \<le> b"
    "(g = 0 \<and> b = 0) \<or> (r = 0 \<and> b = 0) \<or> (r = 0 \<and> g = 0)"
    by (auto simp: counters_ok_iff)
  then show ?thesis by (cases c) auto
qed

lemma counters_ok_increment:
  assumes "counters_ok cnt" and "match_colour cnt = None \<or> match_colour cnt = Some c"
    and "map_of cnt c = Some n"
  shows "counters_ok (AList.update c (n + 1) cnt)"
proof -
  from assms(1) obtain r g b where
    c: "cnt = [(RED, r), (GREEN, g), (BLUE, b)]" "0 \<le> r" "0 \<le> g" "0 \<le> b"
    "(g = 0 \<and> b = 0) \<or> (r = 0 \<and> b = 0) \<or> (r = 0 \<and> g = 0)"
    by (auto simp: counters_ok_iff)
  with assms(2,3) show ?thesis
    by (cases c) (auto simp: counters_ok_iff split: if_splits)
qed

subsection \<open>Well-formed states\<close>

lemma set_update_cases:
  "(a, b) \<in> set (AList.update k v al) \<Longrightarrow> (a, b) = (k, v) \<or> (a, b) \<in> set al"
  by (induction al) (auto split: if_splits)

lemma wf_state_iff:
  "wf_state s \<longleftrightarrow>
     distinct (map fst (zones s)) \<and>
     (\<forall>(l, z) \<in> set (zones s). counters_ok (items_returned z)) \<and>
     (\<forall>(rid, robot) \<in> set (robots s). \<forall>i. item_held robot = Some i \<longrightarrow> map_of (items s) i \<noteq> None) \<and>
     (\<forall>(i, item) \<in> set (items s). map_of (clusters s) (cluster_id item) \<noteq> None)"
  unfolding wf_state_def list_all_iff
  by (auto split: option.splits)

lemma wf_init_state: "wf_state (init_state ztl ztr zbl zbr seed)"
  by (simp add: wf_state_def init_state_def new_zone_def counters_ok_fresh)

lemma wf_pick_up_item:
  assumes "wf_state s"
  shows "wf_state (fst (pick_up_item s rid))"
proof (cases "map_of (robots s) rid")
  case None
  with assms show ?thesis by (simp add: pick_up_item_def)
next
  case (Some robot)
  show ?thesis
  proof (cases "item_held robot")
    case (Some held)
    with \<open>map_of (robots s) rid = Some robot\<close> assms show ?thesis
      by (simp add: pick_up_item_def)
  next
    case None
    show ?thesis
    proof (cases "first_in_range robot (items s)")
      case None
      with \<open>map_of (robots s) rid = Some robot\<close> \<open>item_held robot = None\<close> assms show ?thesis
        by (simp add: pick_up_item_def)
    next
      case (Some i)
      then have "map_of (items s) i \<noteq> None" by (rule first_in_range_mem)
      with assms have
        "wf_state (s\<lparr>robots := AList.update rid (robot\<lparr>item_held := Some i\<rparr>) (robots s)\<rparr>)"
        unfolding wf_state_iff by (auto dest!: set_update_cases)
      with Some \<open>map_of (robots s) rid = Some robot\<close> \<open>item_held robot = None\<close> show ?thesis
        by (simp add: pick_up_item_def)
    qed
  qed
qed

lemma wf_clear_held:
  assumes "wf_state s"
  shows "wf_state (s\<lparr>robots := AList.update rid (robot\<lparr>item_held := None\<rparr>) (robots s)\<rparr>)"
  using assms unfolding wf_state_iff by (auto dest!: set_update_cases)

lemma allowed_drop_True_match:
  assumes "allowed_drop_in_zone s robot (Some (l, z)) = Inr True"
    and "item_held robot = Some held" and "map_of (items s) held = Some item"
  shows "match_colour (items_returned z) = None \<or>
         match_colour (items_returned z) = Some (item_colour item)"
  using assms
  by (auto simp: allowed_drop_in_zone_def held_item_def split: option.splits)

lemma wf_deposit_state:
  assumes wf: "wf_state s"
    and held: "item_held robot = Some held" "map_of (items s) held = Some item"
    and zone: "get_robot_zone (zones s) robot = Some (l, z)"
    and ok: "allowed_drop_in_zone s robot (Some (l, z)) = Inr True"
    and n: "map_of (items_returned z) (item_colour item) = Some n"
  shows "wf_state (deposit_state s rid robot held item l z n x y g)"
proof -
  from zone have "(l, z) \<in> set (zones s)" by (rule get_robot_zone_mem)
  with wf have "counters_ok (items_returned z)" unfolding wf_state_iff by auto
  from counters_ok_increment [OF this allowed_drop_True_match [OF ok held] n]
  have z': "counters_ok (AList.update (item_colour item) (n + 1) (items_returned z))" .
  from held(2) have "(held, item) \<in> set (items s)" by (rule map_of_SomeD)
  with wf have c: "map_of (clusters s) (cluster_id item) \<noteq> None"
    unfolding wf_state_iff by auto
  from wf have "distinct (map fst (AList.update l
      (z\<lparr>items_returned := AList.update (item_colour item) (n + 1) (items_returned z)\<rparr>) (zones s)))"
    unfolding wf_state_iff by (simp add: distinct_update)
  moreover from wf z' have "\<forall>(k, v) \<in> set (AList.update l
      (z\<lparr>items_returned := AList.update (item_colour item) (n + 1) (items_returned z)\<rparr>) (zones s)).
      counters_ok (items_returned v)"
    unfolding wf_state_iff by (auto dest!: set_update_cases)
  moreover from wf have "\<forall>(k, r) \<in> set (AList.update rid
      (robot\<lparr>item_held := None, previous_item_held := None\<rparr>) (robots s)).
      \<forall>i. item_held r = Some i \<longrightarrow>
        map_of (AList.update held (item\<lparr>item_x := x, item_y := y\<rparr>) (items s)) i \<noteq> None"
    unfolding wf_state_iff by (auto dest!: set_update_cases simp: update_conv')
  moreover from wf c have "\<forall>(i, it) \<in> set (AList.update held (item\<lparr>item_x := x, item_y := y\<rparr>) (items s)).
      map_of (clusters s) (cluster_id it) \<noteq> None"
    unfolding wf_state_iff by (auto dest!: set_update_cases)
  ultimately show ?thesis
    unfolding wf_state_iff deposit_state_def by simp
qed

text \<open>Every response of \<^verbatim>\<open>offload_item\<close> comes from one of its four branches.\<close>

lemma offload_item_cases:
  assumes "offload_item s rid = Some (Inr (s', resp, calls))"
  shows "s' = s \<or>
         (\<exists>robot. s' = s\<lparr>robots := AList.update rid (robot\<lparr>item_held := None\<rparr>) (robots s)\<rparr>) \<or>
         (\<exists>robot held item l z n x y g.
            map_of (robots s) rid = Some robot \<and> item_held robot = Some held \<and>
            map_of (items s) held = Some item \<and>
            get_robot_zone (zones s) robot = Some (l, z) \<and>
            allowed_drop_in_zone s robot (Some (l, z)) = Inr True \<and>
            map_of (items_returned z) (item_colour item) = Some n \<and>
            s' = deposit_state s rid robot held item l z n x y g)"
  using assms
  by (auto simp: offload_item_def deposit_state_def Let_def
           split: option.splits sum.splits bool.splits prod.splits)

lemma wf_offload_item:
  assumes "wf_state s" and "offload_item s rid = Some (Inr (s', resp, calls))"
  shows "wf_state s'"
  using offload_item_cases [OF assms(2)] assms(1)
  by (auto simp: wf_clear_held wf_deposit_state)

subsection \<open>What a tick changes\<close>

lemma seed_items_Suc_elim:
  assumes "seed_items (Suc j) cid colour s = Some (Inr (s', calls))"
  obtains x y g calls' where
    "generate_item_position (clusters s) (items s) cid (rng s) = Some (Inr ((x, y), g))"
    "seed_items j cid colour
       (s\<lparr>items := AList.update (''item'' @ str (item_counter s))
                     \<lparr>item_x = x, item_y = y, item_colour = colour, cluster_id = cid\<rparr> (items s),
          rng := g, item_counter := item_counter s + 1\<rparr>) = Some (Inr (s', calls'))"
  using assms
  by (auto simp: spawn_item_def Let_def split: option.splits sum.splits prod.splits)

lemma seed_items_frame:
  "seed_items n cid colour s = Some (Inr (s', calls)) \<Longrightarrow>
   zones s' = zones s \<and> robots s' = robots s \<and> clusters s' = clusters s \<and>
   first_run s' = first_run s \<and> cluster_counter s' = cluster_counter s \<and>
   (\<forall>i. map_of (items s) i \<noteq> None \<longrightarrow> map_of (items s') i \<noteq> None) \<and>
   (\<forall>(i, item) \<in> set (items s'). (i, item) \<in> set (items s) \<or> cluster_id item = cid)"
proof (induction n arbitrary: s calls)
  case 0
  then show ?case by auto
next
  case (Suc j)
  from Suc.prems obtain x y g calls' where
    step: "seed_items j cid colour
       (s\<lparr>items := AList.update (''item'' @ str (item_counter s))
                     \<lparr>item_x = x, item_y = y, item_colour = colour, cluster_id = cid\<rparr> (items s),
          rng := g, item_counter := item_counter s + 1\<rparr>) = Some (Inr (s', calls'))"
    by (rule seed_items_Suc_elim)
  from Suc.IH [OF step] show ?case
    by (auto simp: update_conv' dest!: set_update_cases)
qed

lemma seed_clusters_Suc_elim:
  assumes "seed_clusters (Suc i) s = Some (Inr (s', calls))"
  obtains colour x y g n s2 calls1 calls2 where
    "seed_items n (''cluster'' @ str (cluster_counter s)) colour
       (s\<lparr>clusters := AList.update (''cluster'' @ str (cluster_counter s))
                        \<lparr>cluster_x = x, cluster_y = y, cluster_colour = colour\<rparr> (clusters s),
          cluster_counter := cluster_counter s + 1, rng := g\<rparr>) = Some (Inr (s2, calls1))"
    "seed_clusters i s2 = Some (Inr (s', calls2))"
  using assms
  by (auto simp: Let_def split: option.splits sum.splits prod.splits)

lemma seed_clusters_frame:
  "seed_clusters n s = Some (Inr (s', calls)) \<Longrightarrow>
   zones s' = zones s \<and> robots s' = robots s \<and> first_run s' = first_run s \<and>
   (\<forall>i. map_of (items s) i \<noteq> None \<longrightarrow> map_of (items s') i \<noteq> None) \<and>
   ((\<forall>(i, item) \<in> set (items s). map_of (clusters s) (cluster_id item) \<noteq> None) \<longrightarrow>
    (\<forall>(i, item) \<in> set (items s'). map_of (clusters s') (cluster_id item) \<noteq> None))"
proof (induction n arbitrary: s calls)
  case 0
  then show ?case by auto
next
  case (Suc i)
  from Suc.prems obtain colour x y g n s2 calls1 calls2 where
    fill: "seed_items n (''cluster'' @ str (cluster_counter s)) colour
       (s\<lparr>clusters := AList.update (''cluster'' @ str (cluster_counter s))
                        \<lparr>cluster_x = x, cluster_y = y, cluster_colour = colour\<rparr> (clusters s),
          cluster_counter := cluster_counter s + 1, rng := g\<rparr>) = Some (Inr (s2, calls1))"
    and rest: "seed_clusters i s2 = Some (Inr (s', calls2))"
    by (rule seed_clusters_Suc_elim)
  note f = seed_items_frame [OF fill]
  note r = Suc.IH [OF rest]
  have "\<forall>(i, item) \<in> set (items s2). map_of (clusters s2) (cluster_id item) \<noteq> None"
    if "\<forall>(i, item) \<in> set (items s). map_of (clusters s) (cluster_id item) \<noteq> None"
    using that f by (fastforce simp: update_conv')
  with f r show ?case by auto
qed

lemma discover_robots_keeps:
  "map_of rs k = Some r \<Longrightarrow> map_of (discover_robots names rs) k = Some r"
proof (induction names arbitrary: rs)
  case Nil
  then show ?case by simp
next
  case (Cons a names)
  show ?case
  proof (cases "contains ''robot'' a \<and> map_of rs a = None")
    case True
    with Cons.prems have "map_of (AList.update a (new_robot 0 0) rs) k = Some r"
      by (auto simp: update_conv')
    from Cons.IH [OF this] True show ?thesis by simp
  next
    case False
    with Cons.IH [OF Cons.prems] show ?thesis by auto
  qed
qed

lemma discover_robots_new:
  "(k, r) \<in> set (discover_robots names rs) \<Longrightarrow> (k, r) \<in> set rs \<or> r = new_robot 0 0"
proof (induction names arbitrary: rs)
  case Nil
  then show ?case by simp
next
  case (Cons a names)
  show ?case
  proof (cases "contains ''robot'' a \<and> map_of rs a = None")
    case True
    with Cons.prems have "(k, r) \<in> set (discover_robots names (AList.update a (new_robot 0 0) rs))"
      by simp
    from Cons.IH [OF this] show ?thesis by (auto dest!: set_update_cases)
  next
    case False
    with Cons.prems have "(k, r) \<in> set (discover_robots names rs)" by auto
    from Cons.IH [OF this] show ?thesis .
  qed
qed

lemma discover_robots_new_key:
  "map_of (discover_robots names rs) k = Some r \<Longrightarrow> map_of rs k = None \<Longrightarrow> r = new_robot 0 0"
proof (induction names arbitrary: rs)
  case Nil
  then show ?case by simp
next
  case (Cons a names)
  show ?case
  proof (cases "contains ''robot'' a \<and> map_of rs a = None")
    case True
    with Cons.prems(1) have d: "map_of (discover_robots names (AList.update a (new_robot 0 0) rs)) k = Some r"
      by simp
    show ?thesis
    proof (cases "a = k")
      case True
      then have "map_of (AList.update a (new_robot 0 0) rs) k = Some (new_robot 0 0)"
        by (simp add: update_conv')
      from discover_robots_keeps [OF this] d show ?thesis by simp
    next
      case False
      with Cons.prems(2) have "map_of (AList.update a (new_robot 0 0) rs) k = None"
        by (simp add: update_conv')
      from Cons.IH [OF d this] show ?thesis .
    qed
  next
    case False
    with Cons.prems(1) have "map_of (discover_robots names rs) k = Some r" by auto
    from Cons.IH [OF this Cons.prems(2)] show ?thesis .
  qed
qed

text \<open>The pose written into a robot by one tick.\<close>

lemma sync_robots_robots:
  "sync_robots pose rs its = Inr (rs', its', calls) \<Longrightarrow>
   rs' = map (\<lambda>(k, r). (k, r\<lparr>robot_x := round2 (fst (pose k)),
                                robot_y := round2 (snd (pose k))\<rparr>)) rs"
  by (induction rs arbitrary: its rs' its' calls)
     (auto simp: Let_def split: option.splits sum.splits)

lemma map_fst_update_present:
  "map_of al k \<noteq> None \<Longrightarrow> map fst (AList.update k v al) = map fst al"
  by (induction al) auto

lemma sync_robots_items:
  "sync_robots pose rs its = Inr (rs', its', calls) \<Longrightarrow>
   map fst its' = map fst its \<and>
   (\<forall>i. map_option item_colour (map_of its' i) = map_option item_colour (map_of its i) \<and>
        map_option cluster_id (map_of its' i) = map_option cluster_id (map_of its i)) \<and>
   (\<forall>i. (\<forall>(k, r) \<in> set rs. item_held r \<noteq> Some i) \<longrightarrow> map_of its' i = map_of its i)"
proof (induction rs arbitrary: its rs' its' calls)
  case Nil
  then show ?case by simp
next
  case (Cons a rs)
  obtain k r where a: "a = (k, r)" by (cases a)
  show ?case
  proof (cases "item_held r")
    case None
    with Cons.prems a obtain rs1 calls1 where
      "sync_robots pose rs its = Inr (rs1, its', calls1)"
      by (auto simp: Let_def split: sum.splits)
    from Cons.IH [OF this] a None show ?thesis by auto
  next
    case (Some held)
    with Cons.prems a obtain item rs1 calls1 where
      m: "map_of its held = Some item" and
      rec: "sync_robots pose rs
              (AList.update held (item\<lparr>item_x := round2 (fst (pose k)),
                                        item_y := round2 (snd (pose k))\<rparr>) its) =
            Inr (rs1, its', calls1)"
      by (auto simp: Let_def split: option.splits sum.splits)
    from Cons.IH [OF rec] m a Some show ?thesis
      by (auto simp: update_conv' map_fst_update_present)
  qed
qed


lemma sync_robots_items_set:
  "sync_robots pose rs its = Inr (rs', its', calls) \<Longrightarrow> (j, new) \<in> set its' \<Longrightarrow>
   \<exists>old. (j, old) \<in> set its \<and> item_colour new = item_colour old \<and>
         cluster_id new = cluster_id old"
proof (induction rs arbitrary: its rs' its' calls)
  case Nil
  then show ?case by auto
next
  case (Cons a rs)
  obtain k r where a: "a = (k, r)" by (cases a)
  show ?case
  proof (cases "item_held r")
    case None
    with Cons.prems(1) a obtain rs1 calls1 where
      "sync_robots pose rs its = Inr (rs1, its', calls1)"
      by (auto simp: Let_def split: sum.splits)
    from Cons.IH [OF this Cons.prems(2)] show ?thesis .
  next
    case (Some held)
    with Cons.prems(1) a obtain item rs1 calls1 where
      m: "map_of its held = Some item" and
      rec: "sync_robots pose rs
              (AList.update held (item\<lparr>item_x := round2 (fst (pose k)),
                                        item_y := round2 (snd (pose k))\<rparr>) its) =
            Inr (rs1, its', calls1)"
      by (auto simp: Let_def split: option.splits sum.splits)
    from Cons.IH [OF rec Cons.prems(2)] obtain mid where
      mid: "(j, mid) \<in> set (AList.update held (item\<lparr>item_x := round2 (fst (pose k)),
                                        item_y := round2 (snd (pose k))\<rparr>) its)"
        "item_colour new = item_colour mid" "cluster_id new = cluster_id mid"
      by blast
    from m have "(held, item) \<in> set its" by (rule map_of_SomeD)
    with set_update_cases [OF mid(1)] mid(2,3) show ?thesis by auto
  qed
qed

text \<open>The parts of a tick, once the seeding (if any) has produced \<open>s1\<close>.\<close>

lemma control_loop_elim:
  assumes "control_loop s names pose = Some (Inr (s', calls))"
  obtains s1 spawns rs its calls1 where
    "if first_run s then seed_clusters 6 (s\<lparr>first_run := False\<rparr>) = Some (Inr (s1, spawns))
     else s1 = s"
    "sync_robots pose (discover_robots names (robots s1)) (items s1) = Inr (rs, its, calls1)"
    "s' = s1\<lparr>item_counter := item_counter s1 + 1, robots := rs, items := its\<rparr>"
  using assms
  by (auto simp: control_loop_def spawn_item_def Let_def
           split: option.splits sum.splits prod.splits if_splits)

lemma control_loop_zones:
  assumes "control_loop s names pose = Some (Inr (s', calls))"
  shows "zones s' = zones s"
proof -
  from assms obtain s1 spawns rs its calls1 where
    a: "if first_run s then seed_clusters 6 (s\<lparr>first_run := False\<rparr>) = Some (Inr (s1, spawns))
        else s1 = s"
    and c: "s' = s1\<lparr>item_counter := item_counter s1 + 1, robots := rs, items := its\<rparr>"
    by (rule control_loop_elim)
  from a have "zones s1 = zones s"
    by (auto dest: seed_clusters_frame split: if_splits)
  with c show ?thesis by simp
qed

lemma wf_control_loop:
  assumes wf: "wf_state s" and "control_loop s names pose = Some (Inr (s', calls))"
  shows "wf_state s'"
proof -
  from assms(2) obtain s1 spawns rs its calls1 where
    a: "if first_run s then seed_clusters 6 (s\<lparr>first_run := False\<rparr>) = Some (Inr (s1, spawns))
        else s1 = s"
    and b: "sync_robots pose (discover_robots names (robots s1)) (items s1) = Inr (rs, its, calls1)"
    and c: "s' = s1\<lparr>item_counter := item_counter s1 + 1, robots := rs, items := its\<rparr>"
    by (rule control_loop_elim)
  have wf1: "wf_state s1"
  proof (cases "first_run s")
    case False
    with a wf show ?thesis by simp
  next
    case True
    with a have "seed_clusters 6 (s\<lparr>first_run := False\<rparr>) = Some (Inr (s1, spawns))" by simp
    from seed_clusters_frame [OF this] wf show ?thesis
      unfolding wf_state_iff by fastforce
  qed
  note r = sync_robots_robots [OF b]
  note i = sync_robots_items [OF b]
  have held: "map_of (items s1) j \<noteq> None"
    if "(k, q) \<in> set (discover_robots names (robots s1))" "item_held q = Some j" for k q j
    using discover_robots_new [OF that(1)] that(2) wf1
    unfolding wf_state_iff by (auto simp: new_robot_def)
  have dom: "map_of its j \<noteq> None" if "map_of (items s1) j \<noteq> None" for j
    using i that by (metis option.map_disc_iff)
  have "\<forall>(k, q) \<in> set rs. \<forall>j. item_held q = Some j \<longrightarrow> map_of its j \<noteq> None"
    unfolding r using held dom by fastforce
  moreover have "\<forall>(j, item) \<in> set its. map_of (clusters s1) (cluster_id item) \<noteq> None"
    using sync_robots_items_set [OF b] wf1 unfolding wf_state_iff by fastforce
  ultimately show ?thesis
    using wf1 c unfolding wf_state_iff by simp
qed

subsection \<open>Runs keep the state well-formed\<close>

lemma wf_step:
  assumes "wf_state s" and "step s e = Some s'"
  shows "wf_state s'"
proof (cases e)
  case (PickUp rid)
  with assms show ?thesis by (auto simp: wf_pick_up_item)
next
  case (Offload rid)
  with assms(2) obtain resp calls where "offload_item s rid = Some (Inr (s', resp, calls))"
    by (auto split: option.splits sum.splits)
  with assms(1) show ?thesis by (rule wf_offload_item)
next
  case (Tick names pose)
  with assms(2) obtain calls where "control_loop s names pose = Some (Inr (s', calls))"
    by (auto split: option.splits sum.splits)
  with assms(1) show ?thesis by (rule wf_control_loop)
qed

lemma wf_exec: "wf_state s \<Longrightarrow> exec s es = Some s' \<Longrightarrow> wf_state s'"
  by (induction es arbitrary: s) (auto split: option.splits dest: wf_step)

lemma reachable_wf_state: "reachable s \<Longrightarrow> wf_state s"
  by (induction rule: reachable.induct) (auto simp: wf_init_state dest: wf_step)

lemma reachable_exec: "reachable s \<Longrightarrow> exec s es = Some s' \<Longrightarrow> reachable s'"
  by (induction es arbitrary: s) (auto split: option.splits intro: reachable_step)

subsection \<open>The zone rule\<close>

text \<open>
  Claim C3. In a well-formed state, which every reachable state is, a zone whose
  counters are all zero accepts the held item whatever its colour, and a zone with a
  non-zero counter for some colour accepts the held item exactly when the item has that
  colour.
\<close>

theorem allowed_drop_rule:
  assumes "wf_state s" and "(l, z) \<in> set (zones s)"
    and "item_held robot = Some i" and "map_of (items s) i = Some item"
  shows "((\<forall>c. map_of (items_returned z) c = Some 0) \<longrightarrow>
            allowed_drop_in_zone s robot (Some (l, z)) = Inr True) \<and>
         (\<forall>c n. map_of (items_returned z) c = Some n \<and> n \<noteq> 0 \<longrightarrow>
            allowed_drop_in_zone s robot (Some (l, z)) = Inr (item_colour item = c))"
proof -
  from assms(1,2) have ok: "counters_ok (items_returned z)"
    unfolding wf_state_iff by auto
  have "allowed_drop_in_zone s robot (Some (l, z)) = Inr True"
    if "\<forall>c. map_of (items_returned z) c = Some 0"
    using that match_colour_None_iff [OF ok]
    by (simp add: allowed_drop_in_zone_def)
  moreover have "allowed_drop_in_zone s robot (Some (l, z)) = Inr (item_colour item = c)"
    if "map_of (items_returned z) c = Some n \<and> n \<noteq> 0" for c n
  proof -
    from that match_colour_Some_iff [OF ok, of c] have "match_colour (items_returned z) = Some c"
      by auto
    with assms(3,4) show ?thesis
      by (auto simp: allowed_drop_in_zone_def held_item_def)
  qed
  ultimately show ?thesis by blast
qed


lemma wf_scenario:
  "0 \<le> reds \<Longrightarrow> held \<in> {None, Some ''item0'', Some ''item1'', Some ''item2''} \<Longrightarrow>
   wf_state (scenario x y held reds)"
  by (auto simp: wf_state_def scenario_def counters_ok_def new_zone_def)

lemma scenario_top_left_mem:
  "(TOP_LEFT, \<lparr>zone_location = TOP_LEFT, zone_x = 2.57, zone_y = 2.5,
               items_returned = [(RED, reds), (GREEN, 0), (BLUE, 0)]\<rparr>)
     \<in> set (zones (scenario x y held reds))"
  by (simp add: scenario_def)

lemma scenario_item2:
  "map_of (items (scenario x y held reds)) ''item2'' =
     Some \<lparr>item_x = 0, item_y = 0, item_colour = GREEN, cluster_id = ''cluster1''\<rparr>"
  by (simp add: scenario_def)

theorem allowed_drop_rule_witness:
  "allowed_drop_in_zone (scenario 2.5 2.5 (Some ''item2'') 0)
     \<lparr>robot_x = 2.5, robot_y = 2.5, item_held = Some ''item2'', previous_item_held = None\<rparr>
     (Some (TOP_LEFT, \<lparr>zone_location = TOP_LEFT, zone_x = 2.57, zone_y = 2.5,
                       items_returned = [(RED, 0), (GREEN, 0), (BLUE, 0)]\<rparr>)) = Inr True \<and>
   allowed_drop_in_zone (scenario 2.5 2.5 (Some ''item2'') 1)
     \<lparr>robot_x = 2.5, robot_y = 2.5, item_held = Some ''item2'', previous_item_held = None\<rparr>
     (Some (TOP_LEFT, \<lparr>zone_location = TOP_LEFT, zone_x = 2.57, zone_y = 2.5,
                       items_returned = [(RED, 1), (GREEN, 0), (BLUE, 0)]\<rparr>)) = Inr False \<and>
   allowed_drop_in_zone (scenario 2.5 2.5 (Some ''item0'') 1)
     \<lparr>robot_x = 2.5, robot_y = 2.5, item_held = Some ''item0'', previous_item_held = None\<rparr>
     (Some (TOP_LEFT, \<lparr>zone_location = TOP_LEFT, zone_x = 2.57, zone_y = 2.5,
                       items_returned = [(RED, 1), (GREEN, 0), (BLUE, 0)]\<rparr>)) = Inr True"
proof -
  have h: "item_held \<lparr>robot_x = 2.5, robot_y = 2.5, item_held = Some i, previous_item_held = None\<rparr>
             = Some i" for i :: string
    by simp
  have wf20: "wf_state (scenario 2.5 2.5 (Some ''item2'') 0)"
    and wf21: "wf_state (scenario 2.5 2.5 (Some ''item2'') 1)"
    and wf01: "wf_state (scenario 2.5 2.5 (Some ''item0'') 1)"
    by (rule wf_scenario; simp)+
  have "allowed_drop_in_zone (scenario 2.5 2.5 (Some ''item2'') 0)
     \<lparr>robot_x = 2.5, robot_y = 2.5, item_held = Some ''item2'', previous_item_held = None\<rparr>
     (Some (TOP_LEFT, \<lparr>zone_location = TOP_LEFT, zone_x = 2.57, zone_y = 2.5,
                       items_returned = [(RED, 0), (GREEN, 0), (BLUE, 0)]\<rparr>)) = Inr True"
    by (rule allowed_drop_rule [OF wf20 scenario_top_left_mem h scenario_item2,
          THEN conjunct1, THEN mp])
       (auto intro: Colour.exhaust)
  moreover
  from allowed_drop_rule [OF wf21 scenario_top_left_mem h scenario_item2, THEN conjunct2]
  have "allowed_drop_in_zone (scenario 2.5 2.5 (Some ''item2'') 1)
     \<lparr>robot_x = 2.5, robot_y = 2.5, item_held = Some ''item2'', previous_item_held = None\<rparr>
     (Some (TOP_LEFT, \<lparr>zone_location = TOP_LEFT, zone_x = 2.57, zone_y = 2.5,
                       items_returned = [(RED, 1), (GREEN, 0), (BLUE, 0)]\<rparr>)) = Inr False"
    by (drule_tac x = RED in spec, drule_tac x = 1 in spec) simp
  moreover
  from allowed_drop_rule [OF wf01 scenario_top_left_mem h scenario_item0, THEN conjunct2]
  have "allowed_drop_in_zone (scenario 2.5 2.5 (Some ''item0'') 1)
     \<lparr>robot_x = 2.5, robot_y = 2.5, item_held = Some ''item0'', previous_item_held = None\<rparr>
     (Some (TOP_LEFT, \<lparr>zone_location = TOP_LEFT, zone_x = 2.57, zone_y = 2.5,
                       items_returned = [(RED, 1), (GREEN, 0), (BLUE, 0)]\<rparr>)) = Inr True"
    by (drule_tac x = RED in spec, drule_tac x = 1 in spec) simp
  ultimately show ?thesis by blast
qed

subsection \<open>Zone counters along a run\<close>

lemma pick_up_item_zones: "zones (fst (pick_up_item s rid)) = zones s"
  by (simp add: pick_up_item_def split: option.splits)

lemma zone_count_deposit:
  assumes "distinct (map fst (zones s))" and "(l0, z0) \<in> set (zones s)"
    and "map_of (items_returned z0) (item_colour item) = Some n0"
    and "zone_count s l c = Some n"
  shows "zone_count (deposit_state s rid robot held item l0 z0 n0 x y g) l c =
           Some (if l = l0 \<and> c = item_colour item then n + 1 else n)"
proof -
  from assms(1,2) have "map_of (zones s) l0 = Some z0" by simp
  with assms(3,4) show ?thesis
    by (auto simp: zone_count_def deposit_state_def update_conv')
qed

lemma step_zone_count:
  assumes "wf_state s" and "step s e = Some s'" and "zone_count s l c = Some n"
  shows "\<exists>n'. zone_count s' l c = Some n' \<and> n \<le> n'"
proof (cases e)
  case (PickUp rid)
  with assms(2) have "zones s' = zones s" by (auto simp: pick_up_item_zones)
  with assms(3) show ?thesis by (simp add: zone_count_def)
next
  case (Tick names pose)
  with assms(2) obtain calls where "control_loop s names pose = Some (Inr (s', calls))"
    by (auto split: option.splits sum.splits)
  then have "zones s' = zones s" by (rule control_loop_zones)
  with assms(3) show ?thesis by (simp add: zone_count_def)
next
  case (Offload rid)
  with assms(2) obtain resp calls where "offload_item s rid = Some (Inr (s', resp, calls))"
    by (auto split: option.splits sum.splits)
  from offload_item_cases [OF this]
  consider "zones s' = zones s"
    | robot held item l0 z0 n0 x y g where
        "get_robot_zone (zones s) robot = Some (l0, z0)"
        "map_of (items_returned z0) (item_colour item) = Some n0"
        "s' = deposit_state s rid robot held item l0 z0 n0 x y g"
    by auto
  then show ?thesis
  proof cases
    case 1
    with assms(3) show ?thesis by (simp add: zone_count_def)
  next
    case 2
    from assms(1) have d: "distinct (map fst (zones s))" by (simp add: wf_state_def)
    from 2(1) have "(l0, z0) \<in> set (zones s)" by (rule get_robot_zone_mem)
    from zone_count_deposit [OF d this 2(2) assms(3)] 2(3) show ?thesis by simp
  qed
qed

lemma exec_zone_count:
  "wf_state s \<Longrightarrow> exec s es = Some s' \<Longrightarrow> zone_count s l c = Some n \<Longrightarrow>
   \<exists>n'. zone_count s' l c = Some n' \<and> n \<le> n'"
proof (induction es arbitrary: s n)
  case Nil
  then show ?case by simp
next
  case (Cons e es)
  from Cons.prems(2) obtain s1 where s1: "step s e = Some s1" "exec s1 es = Some s'"
    by (auto split: option.splits)
  from step_zone_count [OF Cons.prems(1) s1(1) Cons.prems(3)] obtain n1 where
    n1: "zone_count s1 l c = Some n1" "n \<le> n1" by blast
  from Cons.IH [OF wf_step [OF Cons.prems(1) s1(1)] s1(2) n1(1)] n1(2) show ?case
    by fastforce
qed

lemma zone_count_nonneg:
  assumes "wf_state s" and "zone_count s l c = Some n"
  shows "0 \<le> n"
proof -
  from assms(2) obtain z where z: "map_of (zones s) l = Some z" "map_of (items_returned z) c = Some n"
    by (auto simp: zone_count_def split: option.splits)
  from z(1) have "(l, z) \<in> set (zones s)" by (rule map_of_SomeD)
  with assms(1) have "counters_ok (items_returned z)" unfolding wf_state_iff by auto
  with z(2) show ?thesis by (auto simp: counters_ok_iff split: if_splits)
qed

text \<open>
  Claim C2. Along every run from a well-formed state, which every reachable state is, no
  counter of a zone decreases. Once an offload has raised the counter of a zone for
  colour \<open>c\<close>, which only the deposit branch does, after \<^verbatim>\<open>allowed_drop_in_zone\<close>
  returned true, that zone rejects a held item of any other colour in every later state
  of the run.
\<close>

theorem zone_lock_monotone:
  "(wf_state s \<and> exec s es = Some s' \<and> zone_count s l c = Some n \<longrightarrow>
      (\<exists>n'. zone_count s' l c = Some n' \<and> n \<le> n')) \<and>
   (wf_state s0 \<and> offload_item s0 rid = Some (Inr (s, resp, calls)) \<and>
    zone_count s0 l c = Some n0 \<and> zone_count s l c = Some n \<and> n0 < n \<and>
    exec s es = Some s' \<and> map_of (zones s') l = Some z' \<and>
    item_held robot = Some i \<and> map_of (items s') i = Some item \<and> item_colour item \<noteq> c \<longrightarrow>
      allowed_drop_in_zone s' robot (Some (l, z')) = Inr False)"
proof -
  have b: "allowed_drop_in_zone s' robot (Some (l, z')) = Inr False"
    if wf0: "wf_state s0" and off: "offload_item s0 rid = Some (Inr (s, resp, calls))"
      and n0: "zone_count s0 l c = Some n0" and n: "zone_count s l c = Some n" and lt: "n0 < n"
      and ex: "exec s es = Some s'" and z': "map_of (zones s') l = Some z'"
      and held: "item_held robot = Some i" "map_of (items s') i = Some item"
      and other: "item_colour item \<noteq> c"
  proof -
    from zone_count_nonneg [OF wf0 n0] lt have "1 \<le> n" by simp
    from wf_offload_item [OF wf0 off] have wf: "wf_state s" .
    from exec_zone_count [OF wf ex n] obtain n' where n': "zone_count s' l c = Some n'" "n \<le> n'"
      by blast
    from z' have mem: "(l, z') \<in> set (zones s')" by (rule map_of_SomeD)
    from wf_exec [OF wf ex] mem have ok: "counters_ok (items_returned z')"
      unfolding wf_state_iff by auto
    from n' z' \<open>1 \<le> n\<close> have "map_of (items_returned z') c = Some n' \<and> n' \<noteq> 0"
      by (auto simp: zone_count_def)
    with match_colour_Some_iff [OF ok, of c] have "match_colour (items_returned z') = Some c"
      by blast
    with held other show ?thesis
      by (auto simp: allowed_drop_in_zone_def held_item_def)
  qed
  from exec_zone_count b show ?thesis by blast
qed


theorem zone_lock_monotone_witness:
  "\<exists>s s' z'.
     step (scenario 2.5 2.5 (Some ''item0'') 0) (Offload ''r1'') = Some s \<and>
     exec s [PickUp ''r1''] = Some s' \<and>
     zone_count (scenario 2.5 2.5 (Some ''item0'') 0) TOP_LEFT RED = Some 0 \<and>
     zone_count s TOP_LEFT RED = Some 1 \<and>
     (\<exists>n'. zone_count s' TOP_LEFT RED = Some n' \<and> 1 \<le> n') \<and>
     map_of (zones s') TOP_LEFT = Some z' \<and>
     allowed_drop_in_zone s'
       \<lparr>robot_x = 2.5, robot_y = 2.5, item_held = Some ''item2'', previous_item_held = None\<rparr>
       (Some (TOP_LEFT, z')) = Inr False"
proof -
  define s0 where "s0 = scenario 2.5 2.5 (Some ''item0'') 0"
  define s where "s = deposit_state s0 ''r1''
                  \<lparr>robot_x = 2.5, robot_y = 2.5, item_held = Some ''item0'',
                    previous_item_held = None\<rparr>
                  ''item0''
                  \<lparr>item_x = - 2, item_y = - 2, item_colour = RED, cluster_id = ''cluster0''\<rparr>
                  TOP_LEFT
                  \<lparr>zone_location = TOP_LEFT, zone_x = 2.57, zone_y = 2.5,
                    items_returned = [(RED, 0), (GREEN, 0), (BLUE, 0)]\<rparr>
                  0 (- 2.38) (- 2) (sconst 0)"
  define z' where "z' = \<lparr>zone_location = TOP_LEFT, zone_x = 2.57, zone_y = 2.5,
                          items_returned = [(RED, 1), (GREEN, 0), (BLUE, 0 :: int)]\<rparr>"
  have wf0: "wf_state s0" unfolding s0_def by (rule wf_scenario) simp_all
  have off: "offload_item s0 ''r1'' =
      Some (Inr (s, \<lparr>success = True,
                 message = ''Item '' @ quoted ''None'' @ '' held by robot '' @ quoted ''r1'' @
                           '' has been offloaded at zone '' @
                           quoted ''ZoneLocation.TOP_LEFT'' @ ''.''\<rparr>,
                [SetEntityState ''item0'' ''world'' (- 2.38) (- 2) 0]))"
    unfolding s0_def s_def by (rule scenario_deposit)
  then have st: "step s0 (Offload ''r1'') = Some s" by simp
  have ex: "exec s [PickUp ''r1''] = Some s"
    by (simp add: s_def s0_def deposit_state_def scenario_def pick_up_item_def
          within_DISTANCE_farther power2_eq_square)
  have n0: "zone_count s0 TOP_LEFT RED = Some 0"
    by (simp add: s0_def scenario_def zone_count_def)
  have n: "zone_count s TOP_LEFT RED = Some 1"
    by (simp add: s_def s0_def deposit_state_def scenario_def zone_count_def)
  have z: "map_of (zones s) TOP_LEFT = Some z'"
    by (simp add: s_def s0_def z'_def deposit_state_def scenario_def)
  have it: "map_of (items s) ''item2'' =
      Some \<lparr>item_x = 0, item_y = 0, item_colour = GREEN, cluster_id = ''cluster1''\<rparr>"
    by (simp add: s_def s0_def deposit_state_def scenario_def)
  have h: "item_held \<lparr>robot_x = 2.5, robot_y = 2.5, item_held = Some ''item2'',
                      previous_item_held = None\<rparr> = Some ''item2''"
    by simp
  from wf_offload_item [OF wf0 off] have wf: "wf_state s" .
  from zone_lock_monotone [THEN conjunct1, THEN mp, OF conjI [OF wf conjI [OF ex n]]]
  have mono: "\<exists>n'. zone_count s TOP_LEFT RED = Some n' \<and> 1 \<le> n'" .
  have lock: "allowed_drop_in_zone s
       \<lparr>robot_x = 2.5, robot_y = 2.5, item_held = Some ''item2'', previous_item_held = None\<rparr>
       (Some (TOP_LEFT, z')) = Inr False"
    apply (rule zone_lock_monotone [THEN conjunct2, THEN mp])
    apply (intro conjI)
             apply (rule wf0)
            apply (rule off)
           apply (rule n0)
          apply (rule n)
         apply simp
        apply (rule ex)
       apply (rule z)
      apply (rule h)
     apply (rule it)
    apply simp
    done
  from st ex n0 n mono z lock show ?thesis
    unfolding s0_def by blast
qed

subsection \<open>The frame of a tick\<close>

lemma map_of_map_keyed:
  "map_of (map (\<lambda>(k, v). (k, f k v)) xs) k = map_option (f k) (map_of xs k)"
  by (induction xs) auto

text \<open>
  Claim C9, as amended. A tick after the first run leaves the zones with their counters,
  the cluster map and the cluster counter unchanged, keeps the ids, colours and clusters
  of all items, and keeps the coordinates of every item that no robot holds. Every
  tracked robot keeps its held item. Besides the coordinates of the robots and of the
  held items, the tick adds the robots the backend newly reports, holding nothing, and
  adds one to \<open>item_counter\<close> for the spawn of the \<^verbatim>\<open>ready\<close> marker.
\<close>

theorem control_loop_frame:
  assumes "\<not> first_run s" and "control_loop s names pose = Some (Inr (s', calls))"
  shows "zones s' = zones s \<and> clusters s' = clusters s \<and>
         cluster_counter s' = cluster_counter s \<and> first_run s' = first_run s \<and>
         rng s' = rng s \<and> item_counter s' = item_counter s + 1 \<and>
         map fst (items s') = map fst (items s) \<and>
         (\<forall>i. map_option item_colour (map_of (items s') i) =
                map_option item_colour (map_of (items s) i) \<and>
              map_option cluster_id (map_of (items s') i) =
                map_option cluster_id (map_of (items s) i)) \<and>
         (\<forall>i. (\<forall>(k, r) \<in> set (robots s). item_held r \<noteq> Some i) \<longrightarrow>
              map_of (items s') i = map_of (items s) i) \<and>
         (\<forall>k r. map_of (robots s) k = Some r \<longrightarrow>
              map_of (robots s') k =
                Some (r\<lparr>robot_x := round2 (fst (pose k)), robot_y := round2 (snd (pose k))\<rparr>)) \<and>
         (\<forall>k r'. map_of (robots s) k = None \<and> map_of (robots s') k = Some r' \<longrightarrow>
              item_held r' = None)"
proof -
  from assms obtain rs its calls1 where
    b: "sync_robots pose (discover_robots names (robots s)) (items s) = Inr (rs, its, calls1)"
    and c: "s' = s\<lparr>item_counter := item_counter s + 1, robots := rs, items := its\<rparr>"
    by (auto elim!: control_loop_elim)
  note r = sync_robots_robots [OF b]
  note i = sync_robots_items [OF b]
  have free: "\<forall>(k, q) \<in> set (discover_robots names (robots s)). item_held q \<noteq> Some j"
    if "\<forall>(k, q) \<in> set (robots s). item_held q \<noteq> Some j" for j
    using that by (auto dest!: discover_robots_new simp: new_robot_def)
  have old: "map_of rs k =
      Some (q\<lparr>robot_x := round2 (fst (pose k)), robot_y := round2 (snd (pose k))\<rparr>)"
    if "map_of (robots s) k = Some q" for k q
    unfolding r map_of_map_keyed using discover_robots_keeps [OF that] by simp
  have new: "item_held q' = None"
    if "map_of (robots s) k = None" "map_of rs k = Some q'" for k q'
  proof -
    from that(2) obtain q where q: "map_of (discover_robots names (robots s)) k = Some q"
      "q' = q\<lparr>robot_x := round2 (fst (pose k)), robot_y := round2 (snd (pose k))\<rparr>"
      unfolding r map_of_map_keyed by auto
    from discover_robots_new_key [OF q(1) that(1)] q(2) show ?thesis
      by (simp add: new_robot_def)
  qed
  from i free have "\<forall>j. (\<forall>(k, q) \<in> set (robots s). item_held q \<noteq> Some j) \<longrightarrow>
      map_of its j = map_of (items s) j"
    by blast
  with i old new show ?thesis unfolding c by auto
qed


lemma scenario_tick:
  "control_loop (scenario 2.5 2.5 (Some ''item0'') 0) [''robot2''] origin_pose =
     Some (Inr
       (scenario 2.5 2.5 (Some ''item0'') 0
          \<lparr>robots := [(''r1'', \<lparr>robot_x = 0, robot_y = 0, item_held = Some ''item0'',
                                previous_item_held = None\<rparr>),
                       (''robot2'', \<lparr>robot_x = 0, robot_y = 0, item_held = None,
                                    previous_item_held = None\<rparr>)],
            items := [(''item0'', \<lparr>item_x = 0, item_y = 0, item_colour = RED,
                                  cluster_id = ''cluster0''\<rparr>),
                      (''item1'', \<lparr>item_x = - 1.62, item_y = - 2, item_colour = RED,
                                  cluster_id = ''cluster0''\<rparr>),
                      (''item2'', \<lparr>item_x = 0, item_y = 0, item_colour = GREEN,
                                  cluster_id = ''cluster1''\<rparr>)],
            item_counter := 5\<rparr>,
        [SpawnEntity ''ready'' RED 0 0 (- 0.5), GetModelList,
         GetEntityState ''r1'', SetEntityState ''item0'' ''r1'' 0 0 0.15,
         GetEntityState ''robot2'',
         PublishItemHolders
           [\<lparr>holder_robot_id = ''r1'', holding_item = True,
              holder_item_colour = ''RED'', holder_item_value = 5\<rparr>,
            \<lparr>holder_robot_id = ''robot2'', holding_item = False,
              holder_item_colour = [], holder_item_value = 0\<rparr>],
         PublishItemLog
           \<lparr>red_count = 0, green_count = 0, blue_count = 0, total_count = 0,
             red_value = 0, green_value = 0, blue_value = 0, total_value = 0\<rparr>]))"
  by (simp add: control_loop_def scenario_def spawn_item_def origin_pose_def new_robot_def
      round2_def round_half_even_def held_item_def item_log_def new_zone_def Let_def)

lemma scenario_seeded: "\<not> first_run (scenario x y held reds)"
  by (simp add: scenario_def)

theorem control_loop_frame_witness:
  "\<exists>s' calls.
     control_loop (scenario 2.5 2.5 (Some ''item0'') 0) [''robot2''] origin_pose =
       Some (Inr (s', calls)) \<and>
     zones s' = zones (scenario 2.5 2.5 (Some ''item0'') 0) \<and>
     clusters s' = clusters (scenario 2.5 2.5 (Some ''item0'') 0) \<and>
     item_counter s' = 5 \<and>
     map fst (items s') = [''item0'', ''item1'', ''item2''] \<and>
     map_of (items s') ''item1'' = map_of (items (scenario 2.5 2.5 (Some ''item0'') 0)) ''item1'' \<and>
     map_option item_colour (map_of (items s') ''item0'') = Some RED \<and>
     map_of (robots s') ''r1'' =
       Some \<lparr>robot_x = 0, robot_y = 0, item_held = Some ''item0'', previous_item_held = None\<rparr>"
  using control_loop_frame [OF scenario_seeded scenario_tick] scenario_tick
  by (simp add: scenario_def)

text \<open>
  The claim as stated fails: a tick on a seeded state changes more than coordinates. It
  tracks a robot the backend newly reports and it advances \<open>item_counter\<close>.
\<close>

theorem control_loop_frame_counterexample:
  "\<not> first_run (scenario 2.5 2.5 (Some ''item0'') 0) \<and>
   map fst (robots (scenario 2.5 2.5 (Some ''item0'') 0)) = [''r1''] \<and>
   item_counter (scenario 2.5 2.5 (Some ''item0'') 0) = 4 \<and>
   map_option (map fst \<circ> robots)
     (step (scenario 2.5 2.5 (Some ''item0'') 0) (Tick [''robot2''] origin_pose)) =
     Some [''r1'', ''robot2''] \<and>
   map_option item_counter
     (step (scenario 2.5 2.5 (Some ''item0'') 0) (Tick [''robot2''] origin_pose)) = Some 5"
  unfolding step.simps scenario_tick by (simp add: scenario_def)

subsection \<open>Robots and the items they hold\<close>

lemma pick_up_item_robot_keys:
  "distinct (map fst (robots s)) \<Longrightarrow> distinct (map fst (robots (fst (pick_up_item s rid))))"
  by (auto simp: pick_up_item_def distinct_update split: option.splits)

lemma offload_item_robot_keys:
  assumes "distinct (map fst (robots s))" and "offload_item s rid = Some (Inr (s', resp, calls))"
  shows "distinct (map fst (robots s'))"
  using offload_item_cases [OF assms(2)] assms(1)
  by (auto simp: deposit_state_def distinct_update)

lemma discover_robots_keys:
  "distinct (map fst rs) \<Longrightarrow> distinct (map fst (discover_robots names rs))"
  by (induction names arbitrary: rs) (auto simp: distinct_update)

lemma control_loop_robot_keys:
  assumes "distinct (map fst (robots s))" and "control_loop s names pose = Some (Inr (s', calls))"
  shows "distinct (map fst (robots s'))"
proof -
  from assms(2) obtain s1 spawns rs its calls1 where
    a: "if first_run s then seed_clusters 6 (s\<lparr>first_run := False\<rparr>) = Some (Inr (s1, spawns))
        else s1 = s"
    and b: "sync_robots pose (discover_robots names (robots s1)) (items s1) = Inr (rs, its, calls1)"
    and c: "s' = s1\<lparr>item_counter := item_counter s1 + 1, robots := rs, items := its\<rparr>"
    by (rule control_loop_elim)
  from a have "robots s1 = robots s"
    by (auto dest: seed_clusters_frame split: if_splits)
  with assms(1) have "distinct (map fst (discover_robots names (robots s1)))"
    by (simp add: discover_robots_keys)
  moreover have "map fst rs = map fst (discover_robots names (robots s1))"
    unfolding sync_robots_robots [OF b] by (simp add: case_prod_unfold comp_def)
  ultimately show ?thesis unfolding c by simp
qed

lemma step_robot_keys:
  assumes "distinct (map fst (robots s))" and "step s e = Some s'"
  shows "distinct (map fst (robots s'))"
proof (cases e)
  case (PickUp rid)
  with assms show ?thesis by (auto simp: pick_up_item_robot_keys)
next
  case (Offload rid)
  with assms(2) obtain resp calls where "offload_item s rid = Some (Inr (s', resp, calls))"
    by (auto split: option.splits sum.splits)
  with assms(1) show ?thesis by (rule offload_item_robot_keys)
next
  case (Tick names pose)
  with assms(2) obtain calls where "control_loop s names pose = Some (Inr (s', calls))"
    by (auto split: option.splits sum.splits)
  with assms(1) show ?thesis by (rule control_loop_robot_keys)
qed

lemma reachable_robot_keys: "reachable s \<Longrightarrow> distinct (map fst (robots s))"
  by (induction rule: reachable.induct) (auto simp: init_state_def dest: step_robot_keys)

text \<open>
  Claim C1, as amended. In every reachable state the robots have distinct ids, every
  robot holds at most one item id, and a held id is the id of an item of the item map.
  Nothing keeps two robots from holding the same item: \<^verbatim>\<open>pick_up_item\<close> does not
  look at what the other robots hold.
\<close>

theorem held_item_invariant:
  assumes "reachable s"
  shows "distinct (map fst (robots s)) \<and>
         (\<forall>(rid, robot) \<in> set (robots s).
            item_held robot = None \<or>
            (\<exists>i. item_held robot = Some i \<and> map_of (items s) i \<noteq> None))"
proof -
  from reachable_wf_state [OF assms]
  have w: "\<forall>(rid, robot) \<in> set (robots s).
          \<forall>i. item_held robot = Some i \<longrightarrow> map_of (items s) i \<noteq> None"
    unfolding wf_state_iff by blast
  have "item_held robot = None \<or>
        (\<exists>i. item_held robot = Some i \<and> map_of (items s) i \<noteq> None)"
    if "(rid, robot) \<in> set (robots s)" for rid robot
    using that w by (cases "item_held robot") auto
  with reachable_robot_keys [OF assms] show ?thesis by auto
qed

lemma map_option_map_sum_fst:
  "map_option (map_sum id fst) x = Some (Inr a) \<Longrightarrow> \<exists>b. x = Some (Inr (a, b))"
  by (cases x) (auto simp: map_sum_def split: sum.splits)

subsection \<open>When the handlers return\<close>

text \<open>
  \<^verbatim>\<open>generate_item_position\<close> raises only for a cluster id that is not in the cluster
  map.
\<close>

lemma generate_item_position_no_error:
  "generate_item_position cs its cid g = Some res \<Longrightarrow> map_of cs cid \<noteq> None \<Longrightarrow>
   res \<noteq> Inl e"
proof (induction rule: generate_item_position.raw_induct [rotated 1, consumes 1])
  case (1 rec cs its cid g res)
  obtain dx dy g2 where o: "item_offset g = ((dx, dy), g2)"
    by (metis prod.exhaust)
  from 1(3) obtain cluster where m: "map_of cs cid = Some cluster" by auto
  show ?case
  proof (cases "list_ex (\<lambda>(_, item). item_clash cid item
      (real_of_int (cluster_x cluster) + dx) (real_of_int (cluster_y cluster) + dy)) its")
    case True
    with 1(2) o m have "rec cs its cid g2 = Some res" by simp
    from 1(1) [OF this 1(3)] show ?thesis .
  next
    case False
    with 1(2) o m show ?thesis by auto
  qed
qed

text \<open>In a well-formed state \<^verbatim>\<open>offload_item\<close> raises no \<^verbatim>\<open>KeyError\<close>.\<close>

lemma counters_ok_lookup: "counters_ok cnt \<Longrightarrow> map_of cnt c \<noteq> None"
  by (cases c) (auto simp: counters_ok_iff)

lemma offload_item_no_error:
  assumes "wf_state s"
  shows "offload_item s rid \<noteq> Some (Inl e)"
proof (cases "map_of (robots s) rid")
  case None
  then show ?thesis by (simp add: offload_item_def)
next
  case (Some robot)
  show ?thesis
  proof (cases "item_held robot")
    case None
    with Some show ?thesis by (simp add: offload_item_def)
  next
    case (Some held)
    from \<open>map_of (robots s) rid = Some robot\<close> have "(rid, robot) \<in> set (robots s)"
      by (rule map_of_SomeD)
    with assms Some obtain item where item: "map_of (items s) held = Some item"
      unfolding wf_state_iff by fastforce
    then have "(held, item) \<in> set (items s)" by (rule map_of_SomeD)
    with assms have c: "map_of (clusters s) (cluster_id item) \<noteq> None"
      unfolding wf_state_iff by auto
    have a: "allowed_drop_in_zone s robot z \<noteq> Inl e" for z
      using Some item
      by (auto simp: allowed_drop_in_zone_def held_item_def split: option.splits)
    show ?thesis
    proof (cases "get_robot_zone (zones s) robot")
      case None
      with \<open>map_of (robots s) rid = Some robot\<close> Some show ?thesis
        by (simp add: offload_item_def allowed_drop_no_zone)
    next
      case (Some lz)
      obtain l z where lz: "lz = (l, z)" by (cases lz)
      with Some have "(l, z) \<in> set (zones s)" by (auto dest: get_robot_zone_mem)
      with assms have "counters_ok (items_returned z)" unfolding wf_state_iff by auto
      from counters_ok_lookup [OF this] obtain n where
        n: "map_of (items_returned z) (item_colour item) = Some n"
        by auto
      have g: "generate_item_position (clusters s) (items s) (cluster_id item) (rng s) \<noteq>
                 Some (Inl e)"
        using generate_item_position_no_error [OF _ c] by blast
      from \<open>map_of (robots s) rid = Some robot\<close> \<open>item_held robot = Some held\<close> item Some lz n g
        a [of "Some (l, z)"]
      show ?thesis
        by (auto simp: offload_item_def Let_def split: sum.splits bool.splits option.splits)
    qed
  qed
qed


text \<open>A tick after the first run returns, and in a well-formed state it does not raise.\<close>

lemma sync_robots_total:
  "\<forall>(k, r) \<in> set rs. \<forall>i. item_held r = Some i \<longrightarrow> map_of its i \<noteq> None \<Longrightarrow>
   \<exists>rs' its' calls. sync_robots pose rs its = Inr (rs', its', calls)"
proof (induction rs arbitrary: its)
  case Nil
  then show ?case by simp
next
  case (Cons a rs)
  obtain k r where a: "a = (k, r)" by (cases a)
  show ?case
  proof (cases "item_held r")
    case None
    from Cons.prems have "\<forall>(k, r) \<in> set rs. \<forall>i. item_held r = Some i \<longrightarrow> map_of its i \<noteq> None"
      by simp
    from Cons.IH [OF this] a None show ?thesis by (auto simp: Let_def)
  next
    case (Some held)
    with Cons.prems a obtain item where m: "map_of its held = Some item" by auto
    from Cons.prems have "\<forall>(j, q) \<in> set rs. \<forall>i. item_held q = Some i \<longrightarrow>
        map_of (AList.update held (item\<lparr>item_x := round2 (fst (pose k)),
                                         item_y := round2 (snd (pose k))\<rparr>) its) i \<noteq> None"
      by (auto simp: update_conv')
    from Cons.IH [OF this] a Some m show ?thesis by (auto simp: Let_def)
  qed
qed

lemma item_holders_total:
  "\<forall>(k, r) \<in> set rs. \<forall>i. item_held r = Some i \<longrightarrow> map_of its i \<noteq> None \<Longrightarrow>
   \<exists>hs. item_holders rs its = Inr hs"
proof (induction rs)
  case Nil
  then show ?case by simp
next
  case (Cons a rs)
  obtain k r where a: "a = (k, r)" by (cases a)
  from Cons.prems have "\<forall>(k, r) \<in> set rs. \<forall>i. item_held r = Some i \<longrightarrow> map_of its i \<noteq> None"
    by simp
  from Cons.IH [OF this] obtain hs where hs: "item_holders rs its = Inr hs" by blast
  from Cons.prems a have "item_held r = None \<or> (\<exists>i item. item_held r = Some i \<and> map_of its i = Some item)"
    by (cases "item_held r") auto
  with a hs show ?case by (auto simp: held_item_def)
qed

lemma returned_count_total:
  "\<forall>(l, z) \<in> set zs. counters_ok (items_returned z) \<Longrightarrow> \<exists>n. returned_count zs c = Inr n"
proof (induction zs)
  case Nil
  then show ?case by simp
next
  case (Cons a zs)
  obtain l z where a: "a = (l, z)" by (cases a)
  with Cons.prems have "counters_ok (items_returned z)" by simp
  from counters_ok_lookup [OF this] obtain n where "map_of (items_returned z) c = Some n" by auto
  moreover from Cons.prems have "\<forall>(l, z) \<in> set zs. counters_ok (items_returned z)" by simp
  from Cons.IH [OF this] obtain m where "returned_count zs c = Inr m" by blast
  ultimately show ?case using a by simp
qed

lemma item_log_total:
  assumes "\<forall>(l, z) \<in> set zs. counters_ok (items_returned z)"
  shows "\<exists>ilog. item_log zs = Inr ilog"
  using returned_count_total [OF assms, of RED] returned_count_total [OF assms, of GREEN]
    returned_count_total [OF assms, of BLUE]
  by (auto simp: item_log_def)

lemma control_loop_returns:
  assumes wf: "wf_state s" and "\<not> first_run s"
  shows "\<exists>s' calls. control_loop s names pose = Some (Inr (s', calls))"
proof -
  have held: "\<forall>(k, q) \<in> set (discover_robots names (robots s)).
      \<forall>i. item_held q = Some i \<longrightarrow> map_of (items s) i \<noteq> None"
    using wf unfolding wf_state_iff
    by (auto dest!: discover_robots_new simp: new_robot_def)
  from sync_robots_total [OF this] obtain rs its calls where
    b: "sync_robots pose (discover_robots names (robots s)) (items s) = Inr (rs, its, calls)"
    by blast
  note r = sync_robots_robots [OF b]
  note i = sync_robots_items [OF b]
  have dom: "map_of its j \<noteq> None" if "map_of (items s) j \<noteq> None" for j
    using i that by (metis option.map_disc_iff)
  have "\<forall>(k, q) \<in> set rs. \<forall>j. item_held q = Some j \<longrightarrow> map_of its j \<noteq> None"
    unfolding r using held dom by fastforce
  from item_holders_total [OF this] obtain hs where hs: "item_holders rs its = Inr hs" by blast
  from wf have "\<forall>(l, z) \<in> set (zones s). counters_ok (items_returned z)"
    unfolding wf_state_iff by blast
  from item_log_total [OF this] obtain ilog where "item_log (zones s) = Inr ilog" by blast
  with assms(2) b hs show ?thesis
    by (simp add: control_loop_def spawn_item_def Let_def)
qed

subsection \<open>A run from the initial state\<close>

lemmas seed_items_numeral = seed_items.simps(2) [of "pred_numeral k", folded numeral_eq_Suc] for k

lemmas seed_clusters_numeral = seed_clusters.simps(2) [of "pred_numeral k", folded numeral_eq_Suc] for k

text \<open>The first-run seeding with the draws of \<open>demo_seed\<close>, evaluated.\<close>

lemma demo_seeding:
  "map_option (map_sum id fst)
     (seed_clusters 6 (init_state True True True True demo_seed\<lparr>first_run := False\<rparr>)) =
   Some (Inr demo_arena)"
  by (simp add: init_state_def new_zone_def spawn_item_def sample_simps
      generate_cluster_location.simps generate_item_position.simps choose_colour.simps
      str.simps demo_seed_def demo_cluster_draws_def seed_items_numeral seed_clusters_numeral
      demo_arena_def demo_clusters_def demo_items_def
      cong: prod.case_cong_weak let_weak_cong)

lemma demo_tick:
  "step (init_state True True True True demo_seed)
     (Tick [''ground_plane'', ''robot1'', ''robot2''] demo_pose) = Some (demo_tracked None None)"
proof -
  from map_option_map_sum_fst [OF demo_seeding] obtain spawns where
    s: "seed_clusters 6 (init_state True True True True demo_seed\<lparr>first_run := False\<rparr>) =
          Some (Inr (demo_arena, spawns))"
    by blast
  have f: "first_run (init_state True True True True demo_seed)"
    by (simp add: init_state_def)
  have "control_loop (init_state True True True True demo_seed)
          [''ground_plane'', ''robot1'', ''robot2''] demo_pose =
        (case spawn_item demo_arena ''ready'' 0 0 RED (- 0.5) of
           (s2, ready) \<Rightarrow>
             (let s3 = s2\<lparr>robots := discover_robots [''ground_plane'', ''robot1'', ''robot2''] (robots s2)\<rparr>
              in case sync_robots demo_pose (robots s3) (items s3) of
                   Inl e \<Rightarrow> Some (Inl e)
                 | Inr (rs, its, calls) \<Rightarrow>
                     (let s4 = s3\<lparr>robots := rs, items := its\<rparr>
                      in case item_holders (robots s4) (items s4) of
                           Inl e \<Rightarrow> Some (Inl e)
                         | Inr holders \<Rightarrow>
                             (case item_log (zones s4) of
                                Inl e \<Rightarrow> Some (Inl e)
                              | Inr ilog \<Rightarrow>
                                  Some (Inr (s4, spawns @ [ready, GetModelList] @ calls @
                                     [PublishItemHolders holders, PublishItemLog ilog]))))))"
    unfolding control_loop_def by (simp only: f if_True s option.case sum.case prod.case)
  then show ?thesis
    by (simp add: demo_arena_def demo_tracked_def init_state_def new_zone_def new_robot_def
        spawn_item_def demo_pose_def round2_def round_half_even_def item_log_def Let_def)
qed

lemma demo_pick_up_first:
  "step (demo_tracked None None) (PickUp ''robot1'') = Some (demo_tracked (Some ''item0'') None)"
  by (simp add: pick_up_item_def demo_tracked_def demo_arena_def demo_items_def init_state_def
      within_DISTANCE_closer power2_eq_square)

lemma demo_pick_up_second:
  "step (demo_tracked (Some ''item0'') None) (PickUp ''robot2'') =
     Some (demo_tracked (Some ''item0'') (Some ''item0''))"
  by (simp add: pick_up_item_def demo_tracked_def demo_arena_def demo_items_def init_state_def
      within_DISTANCE_closer power2_eq_square)

lemma demo_exec:
  "exec (init_state True True True True demo_seed) demo_run =
     Some (demo_tracked (Some ''item0'') (Some ''item0''))"
  by (simp only: demo_run_def exec.simps demo_tick demo_pick_up_first demo_pick_up_second
      option.case)

lemma demo_reachable: "reachable (demo_tracked (Some ''item0'') (Some ''item0''))"
  by (rule reachable_exec [OF reachable_init demo_exec])

theorem held_item_invariant_witness:
  "reachable (demo_tracked (Some ''item0'') (Some ''item0'')) \<and>
   distinct (map fst (robots (demo_tracked (Some ''item0'') (Some ''item0'')))) \<and>
   map fst (robots (demo_tracked (Some ''item0'') (Some ''item0''))) = [''robot1'', ''robot2''] \<and>
   map_of (items (demo_tracked (Some ''item0'') (Some ''item0''))) ''item0'' \<noteq> None"
  using held_item_invariant [OF demo_reachable] demo_reachable
  by (simp add: demo_tracked_def)

text \<open>
  The claim as stated fails: after the first tick and one pick-up request of each of
  two robots standing within reach of the same item, both robots hold \<^verbatim>\<open>item0\<close>.
\<close>

theorem single_holder_counterexample:
  "reachable (demo_tracked (Some ''item0'') (Some ''item0'')) \<and>
   exec (init_state True True True True demo_seed) demo_run =
     Some (demo_tracked (Some ''item0'') (Some ''item0'')) \<and>
   holders_of (exec (init_state True True True True demo_seed) demo_run) ''item0'' =
     [''robot1'', ''robot2'']"
  using demo_reachable demo_exec
  by (simp add: holders_of_def demo_tracked_def)


end
